theory Spec2Isabelle
  imports Main "HOL-Library.Word"
begin

unbundle bit_operations_syntax

section \<open>Machine types and faults\<close>

text \<open>
  The sources are C++ headers of a sampling profiler: \<^verbatim>\<open>frame.h\<close> (frame resolution and
  location-table decoding), \<^verbatim>\<open>strings.h\<close> (the string table) and \<^verbatim>\<open>render.h\<close> (the binary
  trace writer). \<^verbatim>\<open>unsigned char\<close> is an 8-bit word, \<^verbatim>\<open>int\<close> and \<^verbatim>\<open>unsigned int\<close> are
  32-bit words (read with \<open>sint\<close> where the source compares them as signed), pointers,
  \<^verbatim>\<open>uintptr_t\<close> and \<^verbatim>\<open>unw_word_t\<close> are 64-bit words.
\<close>

type_synonym byte = "8 word"
type_synonym addr = "64 word"

text \<open>
  \<^verbatim>\<open>Frame::Error\<close> and its subclass \<^verbatim>\<open>Frame::LocationError\<close> are the two exceptions of
  \<^verbatim>\<open>frame.h\<close>. \<open>ReadPastEnd i\<close> is not an exception: it records that the source indexed
  the local table buffer at \<open>i\<close>, at or beyond its size (undefined behaviour in C++).
\<close>

datatype fault = Frame_Error | Frame_LocationError | ReadPastEnd nat

text \<open>Every \<^verbatim>\<open>table[i]\<close> of the source is a checked read of the local buffer.\<close>

definition rd :: "byte list \<Rightarrow> nat \<Rightarrow> fault + byte" where
  "rd table i = (if i < length table then Inr (table ! i) else Inl (ReadPastEnd i))"

section \<open>Reading a bytes object out of foreign memory (strings.h)\<close>

text \<open>
  What the two copy primitives deliver for a \<^verbatim>\<open>PyBytesObject\<close>: \<open>ob_size\<close> is the size field
  of the copied header, \<open>ob_sval\<close> the bytes readable behind the header. A \<^verbatim>\<open>copy_type\<close> that
  fails is \<open>None\<close> for the whole object; \<^verbatim>\<open>copy_generic\<close> of \<open>n\<close> bytes fails when fewer
  than \<open>n\<close> bytes are readable.
\<close>

record PyBytesObject =
  ob_size :: int
  ob_sval :: "byte list"

definition copy_generic :: "byte list \<Rightarrow> nat \<Rightarrow> byte list option" where
  "copy_generic src n = (if length src < n then None else Some (take n src))"

text \<open>
  \<^verbatim>\<open>pybytes_to_bytes_and_size\<close>: \<open>None\<close> is the null pointer; the local buffer has exactly
  \<open>*size\<close> bytes, and \<open>*size\<close> is at most \<open>1 << 20\<close>.
\<close>

definition pybytes_to_bytes_and_size :: "PyBytesObject option \<Rightarrow> byte list option" where
  "pybytes_to_bytes_and_size bytes_addr =
     (case bytes_addr of
        None \<Rightarrow> None
      | Some bytes \<Rightarrow>
          if ob_size bytes < 0 \<or> ob_size bytes > 2 ^ 20 then None
          else copy_generic (ob_sval bytes) (nat (ob_size bytes)))"

section \<open>Location tables (frame.h)\<close>

record location =
  line :: "32 word"
  line_end :: "32 word"
  column :: "32 word"
  column_end :: "32 word"

subsection \<open>Variable-length integers\<close>

text \<open>
  The \<^verbatim>\<open>while\<close> loop of \<^verbatim>\<open>_read_varint\<close>, entered with \<open>*i = i\<close>: its condition reads
  \<^verbatim>\<open>table[*i]\<close> and tests \<^verbatim>\<open>*i < guard\<close> with \<open>guard = size - 1\<close>, written \<open>i + 1 < sz\<close>
  on naturals. The value is an \<^verbatim>\<open>int\<close>; a shift of 32 or more (undefined in C++) shifts
  every bit out here.
\<close>

function read_varint_loop ::
  "byte list \<Rightarrow> nat \<Rightarrow> nat \<Rightarrow> 32 word \<Rightarrow> nat \<Rightarrow> fault + (32 word \<times> nat)" where
  "read_varint_loop table sz i val shift =
     (case rd table i of
        Inl e \<Rightarrow> Inl e
      | Inr b \<Rightarrow>
          if b AND 64 \<noteq> 0 \<and> i + 1 < sz then
            (case rd table (i + 1) of
               Inl e \<Rightarrow> Inl e
             | Inr b' \<Rightarrow>
                 read_varint_loop table sz (i + 1)
                   (val OR push_bit (shift + 6) (ucast (b' AND 63))) (shift + 6))
          else Inr (val, i))"
  by pat_completeness auto
termination
  by (relation "measure (\<lambda>(table, sz, i, val, shift). sz - i)") auto

text \<open>\<^verbatim>\<open>_read_varint\<close>: returns the value and the new \<open>*i\<close>.\<close>

definition read_varint :: "byte list \<Rightarrow> nat \<Rightarrow> nat \<Rightarrow> fault + (32 word \<times> nat)" where
  "read_varint table sz i =
     (if i + 1 \<ge> sz then Inr (0, i)
      else
        (case rd table (i + 1) of
           Inl e \<Rightarrow> Inl e
         | Inr b \<Rightarrow> read_varint_loop table sz (i + 1) (ucast (b AND 63)) 0))"

text \<open>\<^verbatim>\<open>_read_signed_varint\<close>: \<^verbatim>\<open>(val & 1) ? -(val >> 1) : (val >> 1)\<close> on a signed \<^verbatim>\<open>int\<close>.\<close>

definition read_signed_varint :: "byte list \<Rightarrow> nat \<Rightarrow> nat \<Rightarrow> fault + (32 word \<times> nat)" where
  "read_signed_varint table sz i =
     (case read_varint table sz i of
        Inl e \<Rightarrow> Inl e
      | Inr (val, i') \<Rightarrow>
          Inr (if val AND 1 \<noteq> 0 then - signed_drop_bit 1 val else signed_drop_bit 1 val, i'))"

subsection \<open>One entry of the variable-length table (Python 3.11 and later)\<close>

text \<open>
  The \<^verbatim>\<open>switch\<close> of \<^verbatim>\<open>Frame::infer_location\<close> at entry index \<open>i\<close>, with \<open>len\<close> the size of
  the table: it returns the index of the last byte it consumed, the running line number
  and the location fields it assigned. The guards \<^verbatim>\<open>i >= len - 2\<close> and \<^verbatim>\<open>i >= len - 1\<close>
  are written \<open>i + 2 \<ge> len\<close> and \<open>i + 1 \<ge> len\<close> on naturals.
\<close>

definition long_form ::
  "byte list \<Rightarrow> nat \<Rightarrow> 32 word \<Rightarrow> fault + (nat \<times> 32 word \<times> location)" where
  "long_form table i lineno =
     (case read_signed_varint table (length table) i of
        Inl e \<Rightarrow> Inl e
      | Inr (d, i1) \<Rightarrow>
          (case read_varint table (length table) i1 of
             Inl e \<Rightarrow> Inl e
           | Inr (le, i2) \<Rightarrow>
               (case read_varint table (length table) i2 of
                  Inl e \<Rightarrow> Inl e
                | Inr (c, i3) \<Rightarrow>
                    (case read_varint table (length table) i3 of
                       Inl e \<Rightarrow> Inl e
                     | Inr (ce, i4) \<Rightarrow>
                         Inr (i4, lineno + d,
                              \<lparr>line = lineno + d, line_end = lineno + d + le,
                               column = c, column_end = ce\<rparr>)))))"

definition no_column_form ::
  "byte list \<Rightarrow> nat \<Rightarrow> 32 word \<Rightarrow> fault + (nat \<times> 32 word \<times> location)" where
  "no_column_form table i lineno =
     (case read_signed_varint table (length table) i of
        Inl e \<Rightarrow> Inl e
      | Inr (d, i1) \<Rightarrow>
          Inr (i1, lineno + d,
               \<lparr>line = lineno + d, line_end = lineno + d, column = 0, column_end = 0\<rparr>))"

definition new_lineno_form ::
  "byte list \<Rightarrow> nat \<Rightarrow> nat \<Rightarrow> 32 word \<Rightarrow> fault + (nat \<times> 32 word \<times> location)" where
  "new_lineno_form table code i lineno =
     (if i + 2 \<ge> length table then Inl Frame_LocationError
      else
        (case rd table (i + 1) of
           Inl e \<Rightarrow> Inl e
         | Inr c \<Rightarrow>
             (case rd table (i + 2) of
                Inl e \<Rightarrow> Inl e
              | Inr ce \<Rightarrow>
                  Inr (i + 2, lineno + of_nat (code - 10),
                       \<lparr>line = lineno + of_nat (code - 10),
                        line_end = lineno + of_nat (code - 10),
                        column = 1 + ucast c, column_end = 1 + ucast ce\<rparr>))))"

definition short_form ::
  "byte list \<Rightarrow> nat \<Rightarrow> nat \<Rightarrow> 32 word \<Rightarrow> fault + (nat \<times> 32 word \<times> location)" where
  "short_form table code i lineno =
     (if i + 1 \<ge> length table then Inl Frame_LocationError
      else
        (case rd table (i + 1) of
           Inl e \<Rightarrow> Inl e
         | Inr next_byte \<Rightarrow>
             Inr (i + 1, lineno,
                  \<lparr>line = lineno, line_end = lineno,
                   column = 1 + push_bit 3 (of_nat code) + ucast (drop_bit 4 next_byte AND 7),
                   column_end = 1 + push_bit 3 (of_nat code) + ucast (drop_bit 4 next_byte AND 7)
                                + ucast (next_byte AND 15)\<rparr>)))"

definition entry ::
  "byte list \<Rightarrow> nat \<Rightarrow> nat \<Rightarrow> 32 word \<Rightarrow> location \<Rightarrow> fault + (nat \<times> 32 word \<times> location)" where
  "entry table code i lineno loc =
     (if code = 15 then Inr (i, lineno, loc)
      else if code = 14 then long_form table i lineno
      else if code = 13 then no_column_form table i lineno
      else if code = 12 \<or> code = 11 \<or> code = 10 then new_lineno_form table code i lineno
      else short_form table code i lineno)"


subsection \<open>The three decoding loops of \<^verbatim>\<open>Frame::infer_location\<close>\<close>

lemma read_varint_loop_index:
  "read_varint_loop table sz i val shift = Inr (v, j) \<Longrightarrow> i \<le> j"
proof (induction table sz i val shift rule: read_varint_loop.induct)
  case (1 table sz i val shift)
  show ?case
  proof (cases "rd table i")
    case (Inl e)
    with "1.prems" show ?thesis by (simp add: read_varint_loop.simps [of table sz i])
  next
    case b: (Inr b)
    show ?thesis
    proof (cases "b AND 64 \<noteq> 0 \<and> i + 1 < sz")
      case False
      with b "1.prems" show ?thesis
        by (auto simp: read_varint_loop.simps [of table sz i])
    next
      case True
      show ?thesis
      proof (cases "rd table (i + 1)")
        case (Inl e)
        with b True "1.prems" show ?thesis
          by (simp add: read_varint_loop.simps [of table sz i])
      next
        case (Inr b')
        with b True "1.prems" have
          "read_varint_loop table sz (i + 1)
             (val OR push_bit (shift + 6) (ucast (b' AND 63))) (shift + 6) = Inr (v, j)"
          by (simp add: read_varint_loop.simps [of table sz i])
        with "1.IH" [OF b True Inr] have "i + 1 \<le> j" by simp
        then show ?thesis by simp
      qed
    qed
  qed
qed

declare read_varint_loop.simps [simp del]

lemma read_varint_index: "read_varint table sz i = Inr (v, j) \<Longrightarrow> i \<le> j"
  by (auto simp: read_varint_def split: if_splits sum.splits
      dest: read_varint_loop_index)

lemma read_signed_varint_index: "read_signed_varint table sz i = Inr (v, j) \<Longrightarrow> i \<le> j"
  by (auto simp: read_signed_varint_def split: sum.splits dest: read_varint_index)

lemma long_form_index: "long_form table i lineno = Inr (j, r) \<Longrightarrow> i \<le> j"
  by (fastforce simp: long_form_def split: sum.splits
      dest: read_varint_index read_signed_varint_index)

lemma entry_index: "entry table code i lineno loc = Inr (j, r) \<Longrightarrow> i \<le> j"
  by (auto simp: entry_def no_column_form_def new_lineno_form_def short_form_def
      split: if_splits sum.splits dest: long_form_index read_signed_varint_index)

text \<open>
  The \<^verbatim>\<open>for\<close> loop of Python 3.11 and later. \<open>i\<close> and \<open>bc\<close> are \<^verbatim>\<open>Py_ssize_t\<close>; with a
  table of at most \<open>1 << 20\<close> bytes neither overflows, so \<open>bc\<close> is an integer. \<open>lasti\<close> is
  an \<^verbatim>\<open>int\<close>, compared as signed. The loop yields the running line number and the
  location fields as the entries left them.
\<close>

function linetable_loop ::
  "byte list \<Rightarrow> 32 word \<Rightarrow> nat \<Rightarrow> int \<Rightarrow> 32 word \<Rightarrow> location \<Rightarrow> fault + (32 word \<times> location)"
  where
  "linetable_loop table lasti i bc lineno loc =
     (if i < length table then
        (case rd table i of
           Inl e \<Rightarrow> Inl e
         | Inr b \<Rightarrow>
             (case entry table (unat (drop_bit 3 b AND 15)) i lineno loc of
                Inl e \<Rightarrow> Inl e
              | Inr (i', lineno', loc') \<Rightarrow>
                  if bc + (uint (b AND 7) + 1) > sint lasti then Inr (lineno', loc')
                  else linetable_loop table lasti (i' + 1) (bc + (uint (b AND 7) + 1)) lineno' loc'))
      else Inr (lineno, loc))"
  by pat_completeness auto
termination
proof (relation "measure (\<lambda>(table, lasti, i, bc, lineno, loc). length table - i)")
  show "wf (measure (\<lambda>(table, lasti, i, bc, lineno, loc). length table - i))"
    by simp
next
  fix table :: "byte list" and lasti :: "32 word" and i :: nat and bc :: int
    and lineno :: "32 word" and loc :: location and b :: byte
    and r :: "nat \<times> 32 word \<times> location" and i' :: nat and r' :: "32 word \<times> location"
    and lineno' :: "32 word" and loc' :: location
  assume "i < length table"
    and "entry table (unat (drop_bit 3 b AND 15)) i lineno loc = Inr r"
    and "(i', r') = r"
  then have "i \<le> i'" by (auto dest: entry_index)
  with \<open>i < length table\<close>
  show "((table, lasti, i' + 1, bc + (uint (b AND 7) + 1), lineno', loc'),
         (table, lasti, i, bc, lineno, loc))
        \<in> measure (\<lambda>(table, lasti, i, bc, lineno, loc). length table - i)"
    by simp
qed

text \<open>
  The loop of Python 3.10 (pairs of a bytecode delta and a line delta); the caller has
  already doubled \<open>lasti\<close>. \<open>i\<close> and \<open>bc\<close> are \<^verbatim>\<open>int\<close>; the deltas are at most 255 each and
  the table at most \<open>1 << 20\<close> bytes, so neither overflows. \<^verbatim>\<open>table[i]\<close> after \<^verbatim>\<open>i++\<close> is
  read with no test of \<open>i\<close> against \<open>len\<close>.
\<close>

function delta_pair_loop ::
  "byte list \<Rightarrow> 32 word \<Rightarrow> nat \<Rightarrow> int \<Rightarrow> 32 word \<Rightarrow> fault + 32 word" where
  "delta_pair_loop table lasti i bc lineno =
     (if i < length table then
        (case rd table i of
           Inl e \<Rightarrow> Inl e
         | Inr sdelta \<Rightarrow>
             if uint sdelta = 0xff then Inr lineno
             else
               (case rd table (i + 1) of
                  Inl e \<Rightarrow> Inl e
                | Inr ldelta \<Rightarrow>
                    if bc + uint sdelta > sint lasti then
                      Inr (if uint ldelta = 0x80 then lineno
                           else if uint ldelta > 0x80 then lineno - 0x100 + ucast ldelta
                           else lineno + ucast ldelta)
                    else
                      delta_pair_loop table lasti (i + 2) (bc + uint sdelta)
                        (if uint ldelta = 0x80 then lineno
                         else if uint ldelta > 0x80 then lineno - 0x100 + ucast ldelta
                         else lineno + ucast ldelta)))
      else Inr lineno)"
  by pat_completeness auto
termination
  by (relation "measure (\<lambda>(table, lasti, i, bc, lineno). length table - i)") auto

text \<open>
  The loop of the legacy \<^verbatim>\<open>co_lnotab\<close> (Python 3.9 and earlier): the \<^verbatim>\<open>break\<close> on
  \<^verbatim>\<open>bc > lasti\<close> comes before the line delta is applied. \<^verbatim>\<open>table[i]\<close> after \<^verbatim>\<open>i++\<close> is
  read (twice, at the same index) with no test of \<open>i\<close> against \<open>len\<close>.
\<close>

function lnotab_loop ::
  "byte list \<Rightarrow> 32 word \<Rightarrow> nat \<Rightarrow> int \<Rightarrow> 32 word \<Rightarrow> fault + 32 word" where
  "lnotab_loop table lasti i bc lineno =
     (if i < length table then
        (case rd table i of
           Inl e \<Rightarrow> Inl e
         | Inr b \<Rightarrow>
             if bc + uint b > sint lasti then Inr lineno
             else
               (case rd table (i + 1) of
                  Inl e \<Rightarrow> Inl e
                | Inr l \<Rightarrow>
                    lnotab_loop table lasti (i + 2) (bc + uint b)
                      ((if uint l \<ge> 0x80 then lineno - 0x100 else lineno) + ucast l)))
      else Inr lineno)"
  by pat_completeness auto
termination
  by (relation "measure (\<lambda>(table, lasti, i, bc, lineno). length table - i)") auto

text \<open>
  \<^verbatim>\<open>Frame::infer_location\<close>. \<open>ver\<close> is \<^verbatim>\<open>PY_VERSION_HEX\<close>; \<open>table_obj\<close> is what the copy of
  \<^verbatim>\<open>code->co_linetable\<close> (from 3.10 on) or \<^verbatim>\<open>code->co_lnotab\<close> (before) delivers. The four
  assignments after \<^verbatim>\<open>#endif\<close> run for every version: they overwrite the fields the
  3.11 loop has set.
\<close>

definition infer_location ::
  "nat \<Rightarrow> PyBytesObject option \<Rightarrow> 32 word \<Rightarrow> 32 word \<Rightarrow> location \<Rightarrow> fault + location" where
  "infer_location ver table_obj co_firstlineno lasti loc =
     (case pybytes_to_bytes_and_size table_obj of
        None \<Rightarrow> Inl Frame_LocationError
      | Some table \<Rightarrow>
          (case
             (if ver \<ge> 0x030b0000 then
                (case linetable_loop table lasti 0 0 co_firstlineno loc of
                   Inl e \<Rightarrow> Inl e
                 | Inr (lineno, loc') \<Rightarrow> Inr lineno)
              else if ver \<ge> 0x030a0000 then
                delta_pair_loop table (push_bit 1 lasti) 0 0 co_firstlineno
              else lnotab_loop table lasti 0 0 co_firstlineno)
           of
             Inl e \<Rightarrow> Inl e
           | Inr lineno \<Rightarrow>
               Inr \<lparr>line = lineno, line_end = lineno, column = 0, column_end = 0\<rparr>))"

text \<open>The default member initialisers of \<^verbatim>\<open>Frame::_location\<close>.\<close>

definition default_location :: location where
  "default_location = \<lparr>line = 0, line_end = 0, column = 0, column_end = 0\<rparr>"

section \<open>The binary trace writer (render.h)\<close>

text \<open>
  \<^verbatim>\<open>mojo_int_t\<close>, \<^verbatim>\<open>mojo_uint_t\<close> and \<^verbatim>\<open>mojo_ref_t\<close> are declared in \<^verbatim>\<open>mojo.h\<close>, which is not
  among the sources; they are taken as the 64-bit \<^verbatim>\<open>long long\<close> and
  \<^verbatim>\<open>unsigned long long\<close>. The functions return the bytes they \<^verbatim>\<open>put\<close> on the output.
\<close>

text \<open>The \<^verbatim>\<open>while (integer)\<close> loop of \<^verbatim>\<open>MojoRenderer::integer\<close>.\<close>

function integer_loop :: "64 word \<Rightarrow> byte list" where
  "integer_loop integer =
     (if integer \<noteq> 0 then
        (if drop_bit 7 integer \<noteq> 0 then ucast (integer AND 0x7f) OR 0x80
         else ucast (integer AND 0x7f))
        # integer_loop (drop_bit 7 integer)
      else [])"
  by pat_completeness auto
termination
proof (relation "measure unat")
  show "wf (measure (unat :: 64 word \<Rightarrow> nat))" by simp
next
  fix integer :: "64 word"
  assume "integer \<noteq> 0"
  then have "unat integer \<noteq> 0" by (simp add: unat_eq_0)
  then have "unat integer div 128 < unat integer" by simp
  then show "(drop_bit 7 integer, integer) \<in> measure unat"
    by (simp add: drop_bit_eq_div unat_div)
qed

declare integer_loop.simps [simp del]

text \<open>
  \<^verbatim>\<open>MojoRenderer::integer\<close>. \<^verbatim>\<open>-n\<close> on the most negative \<^verbatim>\<open>long long\<close> overflows in C++;
  here it wraps.
\<close>

definition MojoRenderer_integer :: "64 word \<Rightarrow> byte list" where
  "MojoRenderer_integer n =
     (let integer = (if sint n < 0 then - n else n);
          sign = (sint n < 0);
          byte = ucast (integer AND 0x3f);
          byte = (if sign then byte OR 0x40 else byte);
          integer = drop_bit 6 integer;
          byte = (if integer \<noteq> 0 then byte OR 0x80 else byte)
      in byte # integer_loop integer)"

text \<open>
  \<^verbatim>\<open>MojoRenderer::ref\<close>; the mask \<^verbatim>\<open>MOJO_INT32\<close> is a macro of \<^verbatim>\<open>mojo.h\<close> and a parameter
  here.
\<close>

definition MojoRenderer_ref :: "64 word \<Rightarrow> 64 word \<Rightarrow> byte list" where
  "MojoRenderer_ref MOJO_INT32 v = MojoRenderer_integer (MOJO_INT32 AND v)"

text \<open>
  Modelled from the spec: the decoder of the integer encoding, here its loop over the
  bytes after the first. No decoder is among the sources; this one follows section 4.4
  of the specification: the first byte holds 6
  magnitude bits, a sign bit (\<open>0x40\<close>) and a continuation bit (\<open>0x80\<close>); each further byte
  holds 7 magnitude bits and a continuation bit; the magnitude is reassembled least
  significant chunk first and negated if the sign bit was set. It returns the value and
  the bytes after the integer, or \<open>None\<close> when the bytes end inside an integer.
\<close>

fun spec_decode_tail :: "byte list \<Rightarrow> nat \<Rightarrow> (int \<times> byte list) option" where
  "spec_decode_tail [] shift = None"
| "spec_decode_tail (b # bs) shift =
     (if b AND 0x80 \<noteq> 0 then
        (case spec_decode_tail bs (shift + 7) of
           None \<Rightarrow> None
         | Some (m, rest) \<Rightarrow> Some (uint (b AND 0x7f) * 2 ^ shift + m, rest))
      else Some (uint (b AND 0x7f) * 2 ^ shift, bs))"

text \<open>
  Modelled from the spec: the decoder of one integer (section 4.4), from the first byte on.
\<close>

definition spec_decode_integer :: "byte list \<Rightarrow> (int \<times> byte list) option" where
  "spec_decode_integer bs =
     (case bs of
        [] \<Rightarrow> None
      | b # rest \<Rightarrow>
          (case (if b AND 0x80 \<noteq> 0 then spec_decode_tail rest 6 else Some (0, rest)) of
             None \<Rightarrow> None
           | Some (m, rest') \<Rightarrow>
               Some (if b AND 0x40 \<noteq> 0 then - (uint (b AND 0x3f) + m)
                     else uint (b AND 0x3f) + m, rest')))"

text \<open>
  The records of the trace, one for each event-writing method of \<^verbatim>\<open>MojoRenderer\<close>: the
  event tag and the fields in the order the method writes them. A \<^verbatim>\<open>ref\<close> field holds the
  masked key, an \<^verbatim>\<open>integer\<close> field the value passed.
\<close>

datatype mojo_record =
    MOJO_METADATA string string
  | MOJO_STACK "64 word" "64 word" string
  | MOJO_FRAME "64 word" "64 word" "64 word" "64 word" "64 word" "64 word" "64 word"
  | MOJO_FRAME_KERNEL string
  | MOJO_METRIC_TIME "64 word"
  | MOJO_METRIC_MEMORY "64 word"
  | MOJO_STRING "64 word" string
  | MOJO_STRING_REF "64 word"

text \<open>\<^verbatim>\<open>MojoRenderer::frame\<close>, \<^verbatim>\<open>MojoRenderer::string\<close> and \<^verbatim>\<open>MojoRenderer::string_ref\<close>.\<close>

definition MojoRenderer_frame ::
  "64 word \<Rightarrow> 64 word \<Rightarrow> 64 word \<Rightarrow> 64 word \<Rightarrow> 64 word \<Rightarrow> 64 word \<Rightarrow> 64 word \<Rightarrow> 64 word
   \<Rightarrow> mojo_record" where
  "MojoRenderer_frame MOJO_INT32 k fname nm ln ln_end col col_end =
     MOJO_FRAME (MOJO_INT32 AND k) (MOJO_INT32 AND fname) (MOJO_INT32 AND nm)
       ln ln_end col col_end"

definition MojoRenderer_string :: "64 word \<Rightarrow> 64 word \<Rightarrow> string \<Rightarrow> mojo_record" where
  "MojoRenderer_string MOJO_INT32 k v = MOJO_STRING (MOJO_INT32 AND k) v"

definition MojoRenderer_string_ref :: "64 word \<Rightarrow> 64 word \<Rightarrow> mojo_record" where
  "MojoRenderer_string_ref MOJO_INT32 k = MOJO_STRING_REF (MOJO_INT32 AND k)"

text \<open>
  The ordering rule of the stream (section 4.4 of the specification), as a check of a
  list of records against the keys declared so far: a string declaration must be the
  first for its key, and a frame record or a string reference may only name string keys
  that an earlier record declared.
\<close>

fun strings_declared_before_use :: "64 word list \<Rightarrow> mojo_record list \<Rightarrow> bool" where
  "strings_declared_before_use declared [] = True"
| "strings_declared_before_use declared (MOJO_STRING k v # rs) =
     (k \<notin> set declared \<and> strings_declared_before_use (k # declared) rs)"
| "strings_declared_before_use declared (MOJO_STRING_REF k # rs) =
     (k \<in> set declared \<and> strings_declared_before_use declared rs)"
| "strings_declared_before_use declared (MOJO_FRAME k fname nm ln ln_end col col_end # rs) =
     (fname \<in> set declared \<and> nm \<in> set declared \<and> strings_declared_before_use declared rs)"
| "strings_declared_before_use declared (r # rs) = strings_declared_before_use declared rs"

section \<open>Foreign memory and build constants\<close>

text \<open>
  What the build fixes and the sources leave open: \<^verbatim>\<open>PY_VERSION_HEX\<close>, the macro
  \<^verbatim>\<open>MOJO_INT32\<close> of \<^verbatim>\<open>mojo.h\<close>, \<^verbatim>\<open>sizeof(PyASCIIObject)\<close>, the index
  \<^verbatim>\<open>offsetof(PyCodeObject, co_code_adaptive) / sizeof(_Py_CODEUNIT)\<close>, the enumerator
  \<^verbatim>\<open>FRAME_OWNED_BY_CSTACK\<close>, the text \<^verbatim>\<open>snprintf\<close> prints for \<^verbatim>\<open>%p\<close>, and the value a caller
  of \<^verbatim>\<open>pylong_to_llong\<close> receives (the function has no \<^verbatim>\<open>return\<close> statement).
\<close>

record build =
  PY_VERSION_HEX :: nat
  MOJO_INT32 :: "64 word"
  sizeof_PyASCIIObject :: addr
  co_code_adaptive_index :: "32 word"
  FRAME_OWNED_BY_CSTACK :: nat
  format_pointer :: "addr \<Rightarrow> string"
  pylong_to_llong_result :: "addr \<Rightarrow> 64 word"

text \<open>The fields of the foreign structures that the sources read.\<close>

record PyUnicodeObject =
  state_kind :: nat
  state_compact :: bool
  ascii_length :: int
  utf8 :: addr
  utf8_length :: int

record PyLongObject =
  ob_type_is_PyLong :: bool

record PyCodeObject =
  co_filename :: addr
  co_name :: addr
  co_qualname :: addr
  co_firstlineno :: "32 word"
  co_linetable :: addr
  co_lnotab :: addr

text \<open>
  \<^verbatim>\<open>_PyInterpreterFrame\<close> (Python 3.11 and later). From 3.13 on \<open>f_code\<close> stands for
  \<^verbatim>\<open>f_executable\<close> and \<open>prev_instr\<close> for \<^verbatim>\<open>instr_ptr\<close>; \<open>iframe_is_entry\<close> is the field
  \<^verbatim>\<open>is_entry\<close> of 3.11 and \<open>owner\<close> the field of 3.12 and later.
\<close>

record PyInterpreterFrame =
  f_code :: addr
  prev_instr :: addr
  owner :: nat
  iframe_is_entry :: bool
  previous :: addr

text \<open>\<^verbatim>\<open>PyFrameObject\<close> (Python 3.10 and earlier).\<close>

record PyFrameObject =
  py_f_code :: addr
  f_lasti :: "32 word"
  f_back :: addr

text \<open>
  The memory of the sampled process as the copy primitives see it. For each structure
  type, the map gives what \<^verbatim>\<open>copy_type\<close> delivers at an address, \<open>None\<close> when the copy
  fails; \<open>raw_at\<close> gives the bytes readable from an address on, for \<^verbatim>\<open>copy_generic\<close>;
  \<open>ob_type_is_code_at\<close> tells, for a readable object, whether its type is \<^verbatim>\<open>PyCode_Type\<close>.
\<close>

record memory =
  unicode_at :: "addr \<Rightarrow> PyUnicodeObject option"
  long_at :: "addr \<Rightarrow> PyLongObject option"
  bytes_at :: "addr \<Rightarrow> PyBytesObject option"
  code_at :: "addr \<Rightarrow> PyCodeObject option"
  iframe_at :: "addr \<Rightarrow> PyInterpreterFrame option"
  pyframe_at :: "addr \<Rightarrow> PyFrameObject option"
  ob_type_is_code_at :: "addr \<Rightarrow> bool option"
  raw_at :: "addr \<Rightarrow> byte list"

text \<open>
  The calls of the two copy primitives a function makes, in order: the instrument that
  counts foreign reads.
\<close>

datatype foreign_copy = Copy_type addr | Copy_generic addr nat

section \<open>The string table (strings.h)\<close>

datatype string_exn = StringError | LongError

datatype StringTable_exn = StringTable_Error | StringTable_LookupError

text \<open>
  \<^verbatim>\<open>pyunicode_to_utf8\<close>: the text or the exception, and the copies made. The hard ceiling
  on the length is 1024.
\<close>

definition pyunicode_to_utf8 ::
  "build \<Rightarrow> memory \<Rightarrow> addr \<Rightarrow> (string_exn + string) \<times> foreign_copy list" where
  "pyunicode_to_utf8 cfg mem str_addr =
     (case unicode_at mem str_addr of
        None \<Rightarrow> (Inl StringError, [Copy_type str_addr])
      | Some str \<Rightarrow>
          if state_kind str \<noteq> 1 then (Inl StringError, [Copy_type str_addr])
          else
            let data = (if state_compact str then str_addr + sizeof_PyASCIIObject cfg
                        else utf8 str)
            in
              if data = 0 then (Inl StringError, [Copy_type str_addr])
              else
                let sz = (if state_compact str then ascii_length str else utf8_length str)
                in
                  if sz < 0 \<or> sz > 1024 then (Inl StringError, [Copy_type str_addr])
                  else
                    (case copy_generic (raw_at mem data) (nat sz) of
                       None \<Rightarrow>
                         (Inl StringError, [Copy_type str_addr, Copy_generic data (nat sz)])
                     | Some dest \<Rightarrow>
                         (Inr (map (\<lambda>b. char_of (unat b)) dest),
                          [Copy_type str_addr, Copy_generic data (nat sz)])))"

text \<open>
  \<^verbatim>\<open>pylong_to_llong\<close> (Python 3.12 and later): after the two checks the function computes
  a local \<^verbatim>\<open>ret\<close> and ends without returning it.
\<close>

definition pylong_to_llong ::
  "build \<Rightarrow> memory \<Rightarrow> addr \<Rightarrow> (string_exn + 64 word) \<times> foreign_copy list" where
  "pylong_to_llong cfg mem long_addr =
     (case long_at mem long_addr of
        None \<Rightarrow> (Inl LongError, [Copy_type long_addr])
      | Some long_obj \<Rightarrow>
          if \<not> ob_type_is_PyLong long_obj then (Inl LongError, [Copy_type long_addr])
          else (Inr (pylong_to_llong_result cfg long_addr), [Copy_type long_addr]))"

text \<open>\<^verbatim>\<open>std::to_string\<close> of a \<^verbatim>\<open>long long\<close>.\<close>

fun decimal :: "nat \<Rightarrow> string" where
  "decimal n =
     (if n < 10 then [char_of (48 + n)] else decimal (n div 10) @ [char_of (48 + n mod 10)])"

declare decimal.simps [simp del]

definition to_string :: "64 word \<Rightarrow> string" where
  "to_string v =
     (if sint v < 0 then CHR ''-'' # decimal (nat (- sint v)) else decimal (nat (sint v)))"

text \<open>
  The table is a \<^verbatim>\<open>std::unordered_map<uintptr_t, std::string>\<close>; its constructor enters
  the keys 0, \<^verbatim>\<open>INVALID\<close> and \<^verbatim>\<open>UNKNOWN\<close>.
\<close>

type_synonym string_table = "addr \<rightharpoonup> string"

definition StringTable_INVALID :: addr where "StringTable_INVALID = 1"

definition StringTable_UNKNOWN :: addr where "StringTable_UNKNOWN = 2"

definition StringTable_new :: string_table where
  "StringTable_new =
     [0 \<mapsto> [], StringTable_INVALID \<mapsto> ''<invalid>'', StringTable_UNKNOWN \<mapsto> ''<unknown>'']"

text \<open>
  \<^verbatim>\<open>StringTable::key(PyObject *)\<close>: the key or the exception, the table afterwards, and
  the copies made. The string signal of the trace is not emitted (the source marks it
  \<^verbatim>\<open>TODO\<close>).
\<close>

definition StringTable_key ::
  "build \<Rightarrow> memory \<Rightarrow> string_table \<Rightarrow> addr
   \<Rightarrow> (StringTable_exn + addr) \<times> string_table \<times> foreign_copy list" where
  "StringTable_key cfg mem tbl s =
     (if tbl s = None then
        (if PY_VERSION_HEX cfg \<ge> 0x030c0000 then
           (case pylong_to_llong cfg mem s of
              (Inr v, c1) \<Rightarrow> (Inr s, tbl(s \<mapsto> ''Task-'' @ to_string v), c1)
            | (Inl LongError, c1) \<Rightarrow>
                (case pyunicode_to_utf8 cfg mem s of
                   (Inr str, c2) \<Rightarrow> (Inr s, tbl(s \<mapsto> str), c1 @ c2)
                 | (Inl e, c2) \<Rightarrow> (Inl StringTable_Error, tbl, c1 @ c2))
            | (Inl StringError, c1) \<Rightarrow> (Inl StringTable_Error, tbl, c1))
         else
           (case pyunicode_to_utf8 cfg mem s of
              (Inr str, c2) \<Rightarrow> (Inr s, tbl(s \<mapsto> str), c2)
            | (Inl e, c2) \<Rightarrow> (Inl StringTable_Error, tbl, c2)))
      else (Inr s, tbl, []))"

text \<open>
  \<^verbatim>\<open>StringTable::key(unw_word_t)\<close>: a \<^verbatim>\<open>std::string\<close> of 32 null characters into which
  \<^verbatim>\<open>snprintf\<close> prints at most 31 characters of \<^verbatim>\<open>native@%p\<close>.
\<close>

definition StringTable_key_pc :: "build \<Rightarrow> string_table \<Rightarrow> addr \<Rightarrow> addr \<times> string_table" where
  "StringTable_key_pc cfg tbl pc =
     (if tbl pc = None then
        (let printed = take 31 (''native@'' @ format_pointer cfg pc)
         in (pc, tbl(pc \<mapsto> printed @ replicate (32 - length printed) (CHR 0x00))))
      else (pc, tbl))"

text \<open>
  What the unwinder answers for a cursor: the register \<^verbatim>\<open>UNW_REG_IP\<close>; the start address
  of the procedure from \<^verbatim>\<open>unw_get_proc_info\<close> and the symbol from \<^verbatim>\<open>unw_get_proc_name\<close>,
  each \<open>None\<close> when the call fails; and the result of \<^verbatim>\<open>abi::__cxa_demangle\<close> on that
  symbol, \<open>None\<close> when its status is not 0.
\<close>

record unw_cursor =
  reg_ip :: addr
  proc_info_start_ip :: "addr option"
  proc_name :: "string option"
  demangled :: "string option"

text \<open>\<^verbatim>\<open>StringTable::key(unw_cursor_t &)\<close>.\<close>

definition StringTable_key_cursor ::
  "string_table \<Rightarrow> unw_cursor \<Rightarrow> (StringTable_exn + addr) \<times> string_table" where
  "StringTable_key_cursor tbl cursor =
     (case proc_info_start_ip cursor of
        None \<Rightarrow> (Inl StringTable_Error, tbl)
      | Some k \<Rightarrow>
          if tbl k = None then
            (case proc_name cursor of
               None \<Rightarrow> (Inl StringTable_Error, tbl)
             | Some symb \<Rightarrow>
                 (Inr k,
                  tbl(k \<mapsto>
                    (if take 2 symb = ''_Z'' then
                       (case demangled cursor of None \<Rightarrow> symb | Some d \<Rightarrow> d)
                     else symb))))
          else (Inr k, tbl))"

text \<open>\<^verbatim>\<open>StringTable::lookup\<close>.\<close>

definition StringTable_lookup :: "string_table \<Rightarrow> addr \<Rightarrow> StringTable_exn + string" where
  "StringTable_lookup tbl k =
     (case tbl k of None \<Rightarrow> Inl StringTable_LookupError | Some v \<Rightarrow> Inr v)"

section \<open>The frame cache\<close>

text \<open>
  Modelled from the spec: \<^verbatim>\<open>LRUCache\<close> of \<^verbatim>\<open>cache.h\<close>, which is not among the sources.
  Following sections 3 and 4.3 of the specification: a capacity fixed at construction and
  the entries in recency order, most recently used first; \<open>lookup\<close> of an absent key fails
  (\<open>None\<close> stands for \<^verbatim>\<open>LookupError\<close>), a successful \<open>lookup\<close> promotes the entry to most
  recently used; \<open>store\<close> evicts the least recently used entry when the cache is at
  capacity and inserts the new one as most recently used.
\<close>

record 'v LRUCache =
  capacity :: nat
  items :: "(addr \<times> 'v) list"

text \<open>
  Modelled from the spec: the constructor of \<^verbatim>\<open>LRUCache\<close> (\<^verbatim>\<open>cache.h\<close> is not among the
  sources): an empty cache of the given capacity.
\<close>

definition LRUCache_new :: "nat \<Rightarrow> 'v LRUCache" where
  "LRUCache_new n = \<lparr>capacity = n, items = []\<rparr>"

text \<open>
  Modelled from the spec: \<^verbatim>\<open>LRUCache::lookup\<close> (\<^verbatim>\<open>cache.h\<close> is not among the sources). An
  absent key fails; a present one is returned and promoted to most recently used.
\<close>

definition LRUCache_lookup :: "'v LRUCache \<Rightarrow> addr \<Rightarrow> ('v \<times> 'v LRUCache) option" where
  "LRUCache_lookup c k =
     (case map_of (items c) k of
        None \<Rightarrow> None
      | Some v \<Rightarrow> Some (v, c\<lparr>items := (k, v) # filter (\<lambda>e. fst e \<noteq> k) (items c)\<rparr>))"

text \<open>
  Modelled from the spec: \<^verbatim>\<open>LRUCache::store\<close> (\<^verbatim>\<open>cache.h\<close> is not among the sources). The
  new entry becomes the most recently used; of the old entries the \<open>capacity - 1\<close> most
  recently used stay, so that a cache at capacity loses its least recently used entry.
\<close>

definition LRUCache_store :: "'v LRUCache \<Rightarrow> addr \<Rightarrow> 'v \<Rightarrow> 'v LRUCache" where
  "LRUCache_store c k v = c\<lparr>items := (k, v) # take (capacity c - 1) (items c)\<rparr>"

section \<open>Frames (frame.h)\<close>

record Frame =
  cache_key :: addr
  filename :: addr
  name :: addr
  location :: location
  is_entry :: bool

text \<open>\<^verbatim>\<open>Frame(StringTable::Key name)\<close> and the two sentinel frames.\<close>

definition Frame_of_name :: "addr \<Rightarrow> Frame" where
  "Frame_of_name nm =
     \<lparr>cache_key = 0, filename = 0, name = nm, location = default_location, is_entry = False\<rparr>"

definition INVALID_FRAME :: Frame where
  "INVALID_FRAME = Frame_of_name StringTable_INVALID"

definition UNKNOWN_FRAME :: Frame where
  "UNKNOWN_FRAME = Frame_of_name StringTable_UNKNOWN"

text \<open>
  A \<^verbatim>\<open>Frame &\<close> as the \<^verbatim>\<open>get\<close> functions return it: one of the two sentinels, or the frame
  the cache owns under a key.
\<close>

datatype Frame_ref = Ref_INVALID_FRAME | Ref_UNKNOWN_FRAME | Ref_cached addr

text \<open>
  The global state: the string table, the frame cache, and the records written to the
  trace so far. \<^verbatim>\<open>mojo\<close> is declared in \<^verbatim>\<open>mojo.h\<close>; its \<^verbatim>\<open>frame\<close> method is taken to be
  \<^verbatim>\<open>MojoRenderer::frame\<close> of \<^verbatim>\<open>render.h\<close>, which has the same parameters.
\<close>

record state =
  string_table :: string_table
  frame_cache :: "Frame LRUCache"
  mojo :: "mojo_record list"

definition frame_of :: "state \<Rightarrow> Frame_ref \<Rightarrow> Frame option" where
  "frame_of st r =
     (case r of
        Ref_INVALID_FRAME \<Rightarrow> Some INVALID_FRAME
      | Ref_UNKNOWN_FRAME \<Rightarrow> Some UNKNOWN_FRAME
      | Ref_cached k \<Rightarrow> map_of (items (frame_cache st)) k)"

text \<open>\<^verbatim>\<open>Frame(PyCodeObject *code, int lasti)\<close>: the frame or the exception, and the table.\<close>

definition Frame_of_code ::
  "build \<Rightarrow> memory \<Rightarrow> string_table \<Rightarrow> PyCodeObject \<Rightarrow> 32 word \<Rightarrow> (fault + Frame) \<times> string_table"
  where
  "Frame_of_code cfg mem tbl code lasti =
     (case StringTable_key cfg mem tbl (co_filename code) of
        (Inl e, tbl1, c1) \<Rightarrow> (Inl Frame_Error, tbl1)
      | (Inr fname, tbl1, c1) \<Rightarrow>
          (case StringTable_key cfg mem tbl1
                  (if PY_VERSION_HEX cfg \<ge> 0x030b0000 then co_qualname code else co_name code)
           of
             (Inl e, tbl2, c2) \<Rightarrow> (Inl Frame_Error, tbl2)
           | (Inr nm, tbl2, c2) \<Rightarrow>
               (case infer_location (PY_VERSION_HEX cfg)
                       (bytes_at mem
                          (if PY_VERSION_HEX cfg \<ge> 0x030a0000 then co_linetable code
                           else co_lnotab code))
                       (co_firstlineno code) lasti default_location
                of
                  Inl e \<Rightarrow> (Inl e, tbl2)
                | Inr loc \<Rightarrow>
                    (Inr \<lparr>cache_key = 0, filename = fname, name = nm, location = loc,
                          is_entry = False\<rparr>, tbl2))))"

text \<open>\<^verbatim>\<open>Frame(unw_cursor_t &cursor, unw_word_t pc)\<close>.\<close>

definition Frame_of_cursor ::
  "build \<Rightarrow> string_table \<Rightarrow> unw_cursor \<Rightarrow> addr \<Rightarrow> (fault + Frame) \<times> string_table" where
  "Frame_of_cursor cfg tbl cursor pc =
     (case StringTable_key_pc cfg tbl pc of
        (fname, tbl1) \<Rightarrow>
          (case StringTable_key_cursor tbl1 cursor of
             (Inl e, tbl2) \<Rightarrow> (Inl Frame_Error, tbl2)
           | (Inr nm, tbl2) \<Rightarrow>
               (Inr \<lparr>cache_key = 0, filename = fname, name = nm, location = default_location,
                     is_entry = False\<rparr>, tbl2)))"

text \<open>
  \<^verbatim>\<open>Frame::key(PyCodeObject *, int)\<close>: \<^verbatim>\<open>lasti\<close> is an \<^verbatim>\<open>int\<close> and is sign-extended for the
  bitwise or with a \<^verbatim>\<open>uintptr_t\<close>.
\<close>

definition Frame_key :: "build \<Rightarrow> addr \<Rightarrow> 32 word \<Rightarrow> addr" where
  "Frame_key cfg code lasti = push_bit 16 (code AND MOJO_INT32 cfg) OR scast lasti"

text \<open>
  The miss branch shared by the \<^verbatim>\<open>get\<close> functions once a frame is constructed: set its
  \<open>cache_key\<close>, write the frame record, store the frame.
\<close>

definition announce_and_store :: "build \<Rightarrow> state \<Rightarrow> addr \<Rightarrow> Frame \<Rightarrow> state" where
  "announce_and_store cfg st frame_key new_frame =
     st\<lparr>mojo := mojo st @
           [MojoRenderer_frame (MOJO_INT32 cfg) frame_key (filename new_frame) (name new_frame)
              (scast (line (location new_frame))) (scast (line_end (location new_frame)))
              (scast (column (location new_frame))) (scast (column_end (location new_frame)))],
        frame_cache :=
          LRUCache_store (frame_cache st) frame_key (new_frame\<lparr>cache_key := frame_key\<rparr>)\<rparr>"

text \<open>
  \<^verbatim>\<open>Frame::get(PyCodeObject *code_addr, int lasti)\<close>. The \<^verbatim>\<open>catch (Frame::Error &)\<close> turns
  both exceptions into the invalid sentinel; a read beyond the table is no exception and
  is passed on as it is.
\<close>

definition Frame_get_code ::
  "build \<Rightarrow> memory \<Rightarrow> state \<Rightarrow> addr \<Rightarrow> 32 word \<Rightarrow> (fault + Frame_ref) \<times> state" where
  "Frame_get_code cfg mem st code_addr lasti =
     (case code_at mem code_addr of
        None \<Rightarrow> (Inr Ref_INVALID_FRAME, st)
      | Some code \<Rightarrow>
          (case LRUCache_lookup (frame_cache st) (Frame_key cfg code_addr lasti) of
             Some (f, cache') \<Rightarrow>
               (Inr (Ref_cached (Frame_key cfg code_addr lasti)), st\<lparr>frame_cache := cache'\<rparr>)
           | None \<Rightarrow>
               (case Frame_of_code cfg mem (string_table st) code lasti of
                  (Inl (ReadPastEnd i), tbl) \<Rightarrow> (Inl (ReadPastEnd i), st\<lparr>string_table := tbl\<rparr>)
                | (Inl e, tbl) \<Rightarrow> (Inr Ref_INVALID_FRAME, st\<lparr>string_table := tbl\<rparr>)
                | (Inr new_frame, tbl) \<Rightarrow>
                    (Inr (Ref_cached (Frame_key cfg code_addr lasti)),
                     announce_and_store cfg (st\<lparr>string_table := tbl\<rparr>)
                       (Frame_key cfg code_addr lasti) new_frame))))"

text \<open>
  \<^verbatim>\<open>Frame::get(unw_cursor_t &cursor)\<close>. The \<^verbatim>\<open>throw Error()\<close> for a program counter of 0
  stands before the \<^verbatim>\<open>try\<close> blocks and reaches the caller.
\<close>

definition Frame_get_cursor ::
  "build \<Rightarrow> state \<Rightarrow> unw_cursor \<Rightarrow> (fault + Frame_ref) \<times> state" where
  "Frame_get_cursor cfg st cursor =
     (if reg_ip cursor = 0 then (Inl Frame_Error, st)
      else
        (case LRUCache_lookup (frame_cache st) (reg_ip cursor) of
           Some (f, cache') \<Rightarrow> (Inr (Ref_cached (reg_ip cursor)), st\<lparr>frame_cache := cache'\<rparr>)
         | None \<Rightarrow>
             (case Frame_of_cursor cfg (string_table st) cursor (reg_ip cursor) of
                (Inl e, tbl) \<Rightarrow> (Inr Ref_UNKNOWN_FRAME, st\<lparr>string_table := tbl\<rparr>)
              | (Inr frame, tbl) \<Rightarrow>
                  (Inr (Ref_cached (reg_ip cursor)),
                   announce_and_store cfg (st\<lparr>string_table := tbl\<rparr>) (reg_ip cursor) frame))))"

text \<open>
  The loop that opens \<^verbatim>\<open>Frame::read\<close> from Python 3.13 on: it walks the chain of frames
  to the first one whose executable is a code object. It ends with the address of that
  frame or with \<^verbatim>\<open>Frame::Error\<close> (a failed copy, or the end of the chain, after which the
  source throws); on a cyclic chain it does not end, which is the value \<open>None\<close>. The source
  takes \<^verbatim>\<open>previous\<close> through the frame pointer itself; here it is the field of the copy.
\<close>

partial_function (option) skip_to_code_frame :: "memory \<Rightarrow> addr \<Rightarrow> (fault + addr) option" where
  "skip_to_code_frame mem frame_addr =
     (if frame_addr = 0 then Some (Inl Frame_Error)
      else
        (case iframe_at mem frame_addr of
           None \<Rightarrow> Some (Inl Frame_Error)
         | Some iframe \<Rightarrow>
             (case ob_type_is_code_at mem (f_code iframe) of
                None \<Rightarrow> Some (Inl Frame_Error)
              | Some is_code \<Rightarrow>
                  if is_code then Some (Inr frame_addr)
                  else skip_to_code_frame mem (previous iframe))))"

text \<open>
  The write \<^verbatim>\<open>frame.is_entry = ...\<close> through the reference \<^verbatim>\<open>Frame::get\<close> returned: it
  changes the frame the cache owns under that key.
\<close>

fun update_first :: "addr \<Rightarrow> (Frame \<Rightarrow> Frame) \<Rightarrow> (addr \<times> Frame) list \<Rightarrow> (addr \<times> Frame) list"
  where
  "update_first k g [] = []"
| "update_first k g ((k', f) # xs) =
     (if k' = k then (k', g f) # xs else (k', f) # update_first k g xs)"

definition set_is_entry :: "state \<Rightarrow> addr \<Rightarrow> bool \<Rightarrow> state" where
  "set_is_entry st k e =
     st\<lparr>frame_cache :=
          (frame_cache st)\<lparr>items :=
             update_first k (\<lambda>f. f\<lparr>is_entry := e\<rparr>) (items (frame_cache st))\<rparr>\<rparr>"

text \<open>
  \<^verbatim>\<open>Frame::read\<close> from the copy of the frame on: the reference returned and the value
  stored to \<^verbatim>\<open>*prev_addr\<close>, or the exception. The difference of two \<^verbatim>\<open>_Py_CODEUNIT *\<close>
  counts 2-byte units. \<^verbatim>\<open>Frame::get(code, lasti)\<close> returns the invalid sentinel or a cached
  frame, never the unknown sentinel; \<^verbatim>\<open>is_entry\<close> is written unless the reference is the
  invalid sentinel.
\<close>

definition Frame_read_frame ::
  "build \<Rightarrow> memory \<Rightarrow> state \<Rightarrow> addr \<Rightarrow> (fault + Frame_ref \<times> addr) \<times> state" where
  "Frame_read_frame cfg mem st frame_addr =
     (if PY_VERSION_HEX cfg \<ge> 0x030b0000 then
        (case iframe_at mem frame_addr of
           None \<Rightarrow> (Inl Frame_Error, st)
         | Some iframe \<Rightarrow>
             (case Frame_get_code cfg mem st (f_code iframe)
                     (if PY_VERSION_HEX cfg \<ge> 0x030d0000 then
                        ucast (signed_drop_bit 1 (prev_instr iframe - 2 - f_code iframe))
                        - co_code_adaptive_index cfg
                      else
                        ucast (signed_drop_bit 1 (prev_instr iframe - f_code iframe))
                        - co_code_adaptive_index cfg)
              of
                (Inl e, st') \<Rightarrow> (Inl e, st')
              | (Inr (Ref_cached k), st') \<Rightarrow>
                  (Inr (Ref_cached k, previous iframe),
                   set_is_entry st' k
                     (if PY_VERSION_HEX cfg \<ge> 0x030c0000 then
                        owner iframe = FRAME_OWNED_BY_CSTACK cfg
                      else iframe_is_entry iframe))
              | (Inr r, st') \<Rightarrow> (Inr (r, 0), st')))
      else
        (case pyframe_at mem frame_addr of
           None \<Rightarrow> (Inl Frame_Error, st)
         | Some py_frame \<Rightarrow>
             (case Frame_get_code cfg mem st (py_f_code py_frame) (f_lasti py_frame) of
                (Inl e, st') \<Rightarrow> (Inl e, st')
              | (Inr (Ref_cached k), st') \<Rightarrow> (Inr (Ref_cached k, f_back py_frame), st')
              | (Inr r, st') \<Rightarrow> (Inr (r, 0), st'))))"

text \<open>\<^verbatim>\<open>Frame::read\<close>; \<open>None\<close> when the loop of Python 3.13 does not end.\<close>

definition Frame_read ::
  "build \<Rightarrow> memory \<Rightarrow> state \<Rightarrow> addr \<Rightarrow> ((fault + Frame_ref \<times> addr) \<times> state) option" where
  "Frame_read cfg mem st frame_addr =
     (if PY_VERSION_HEX cfg \<ge> 0x030d0000 then
        (case skip_to_code_frame mem frame_addr of
           None \<Rightarrow> None
         | Some (Inl e) \<Rightarrow> Some (Inl e, st)
         | Some (Inr code_frame_addr) \<Rightarrow> Some (Frame_read_frame cfg mem st code_frame_addr))
      else Some (Frame_read_frame cfg mem st frame_addr))"

section \<open>Example inputs\<close>

text \<open>
  A build for Python 3.11, and a memory that holds a code object at \<open>0x10\<close> (file name at
  \<open>0x2000\<close>, qualified name at \<open>0x3000\<close>, first line 10, a line table with one fixed-delta
  entry), three compact one-byte-per-character text objects (\<open>a.py\<close> at \<open>0x2000\<close>, \<open>f\<close> at
  \<open>0x3000\<close>, and one at \<open>0x4000\<close> that declares 2000 characters), and an interpreter frame
  at \<open>0x6000\<close> that runs the code object. They serve the closed theorems below.
\<close>

definition example_build :: build where
  "example_build =
     \<lparr>PY_VERSION_HEX = 0x030b0000, MOJO_INT32 = 0x7ffffff, sizeof_PyASCIIObject = 48,
      co_code_adaptive_index = 0, FRAME_OWNED_BY_CSTACK = 3,
      format_pointer = (\<lambda>a. ''0x0''), pylong_to_llong_result = (\<lambda>a. 0)\<rparr>"

definition example_memory :: memory where
  "example_memory =
     \<lparr>unicode_at = (\<lambda>a.
        if a = 0x2000 then
          Some \<lparr>state_kind = 1, state_compact = True, ascii_length = 4, utf8 = 0, utf8_length = 0\<rparr>
        else if a = 0x3000 then
          Some \<lparr>state_kind = 1, state_compact = True, ascii_length = 1, utf8 = 0, utf8_length = 0\<rparr>
        else if a = 0x4000 then
          Some \<lparr>state_kind = 1, state_compact = True, ascii_length = 2000, utf8 = 0,
                utf8_length = 0\<rparr>
        else None),
      long_at = (\<lambda>a. None),
      bytes_at = (\<lambda>a. if a = 0x5000 then Some \<lparr>ob_size = 3, ob_sval = [0x50, 5, 9]\<rparr> else None),
      code_at = (\<lambda>a.
        if a = 0x10 then
          Some \<lparr>co_filename = 0x2000, co_name = 0x3000, co_qualname = 0x3000,
                co_firstlineno = 10, co_linetable = 0x5000, co_lnotab = 0x5000\<rparr>
        else None),
      iframe_at = (\<lambda>a.
        if a = 0x6000 then
          Some \<lparr>f_code = 0x10, prev_instr = 0x10, owner = 3, iframe_is_entry = True,
                previous = 0\<rparr>
        else None),
      pyframe_at = (\<lambda>a. None),
      ob_type_is_code_at = (\<lambda>a. None),
      raw_at = (\<lambda>a.
        if a = 0x2030 then [0x61, 0x2e, 0x70, 0x79] else if a = 0x3030 then [0x66] else [])\<rparr>"

definition example_state :: state where
  "example_state =
     \<lparr>string_table = StringTable_new, frame_cache = LRUCache_new 8, mojo = []\<rparr>"

definition example_frame :: Frame where
  "example_frame =
     \<lparr>cache_key = 0x100000, filename = 0x2000, name = 0x3000,
      location = \<lparr>line = 10, line_end = 10, column = 0, column_end = 0\<rparr>, is_entry = False\<rparr>"

definition example_cached_state :: state where
  "example_cached_state =
     \<lparr>string_table = StringTable_new,
      frame_cache = \<lparr>capacity = 8, items = [(0x100000, example_frame)]\<rparr>, mojo = []\<rparr>"


section \<open>Properties of location-table decoding\<close>

lemma read_varint_loop_total:
  "i < length table \<Longrightarrow>
   \<exists>v j. read_varint_loop table (length table) i val shift = Inr (v, j) \<and> j < length table"
proof (induction "length table - i" arbitrary: i val shift)
  case 0
  then show ?case by simp
next
  case (Suc n)
  show ?case
  proof (cases "table ! i AND 64 \<noteq> 0 \<and> i + 1 < length table")
    case False
    with Suc.prems show ?thesis
      by (auto simp: read_varint_loop.simps [of table "length table" i] rd_def)
  next
    case True
    then have "n = length table - (i + 1)" and "i + 1 < length table"
      using Suc.hyps(2) by auto
    from Suc.hyps(1) [OF this] True Suc.prems show ?thesis
      by (simp add: read_varint_loop.simps [of table "length table" i] rd_def)
  qed
qed

lemma read_varint_total:
  "\<exists>v j. read_varint table (length table) i = Inr (v, j) \<and> (i < length table \<longrightarrow> j < length table)"
proof (cases "i + 1 \<ge> length table")
  case True
  then show ?thesis by (simp add: read_varint_def)
next
  case False
  then have "i + 1 < length table" by simp
  from read_varint_loop_total [OF this] False show ?thesis
    by (simp add: read_varint_def rd_def)
qed

lemma read_signed_varint_total:
  "\<exists>v j. read_signed_varint table (length table) i = Inr (v, j) \<and> (i < length table \<longrightarrow> j < length table)"
  using read_varint_total [of table i] by (auto simp: read_signed_varint_def)

lemma long_form_total:
  "\<exists>j r. long_form table i lineno = Inr (j, r) \<and> (i < length table \<longrightarrow> j < length table)"
proof -
  obtain d i1 where 1: "read_signed_varint table (length table) i = Inr (d, i1)"
    and b1: "i < length table \<longrightarrow> i1 < length table"
    using read_signed_varint_total [of table i] by blast
  obtain le i2 where 2: "read_varint table (length table) i1 = Inr (le, i2)"
    and b2: "i1 < length table \<longrightarrow> i2 < length table"
    using read_varint_total [of table i1] by blast
  obtain c i3 where 3: "read_varint table (length table) i2 = Inr (c, i3)"
    and b3: "i2 < length table \<longrightarrow> i3 < length table"
    using read_varint_total [of table i2] by blast
  obtain ce i4 where 4: "read_varint table (length table) i3 = Inr (ce, i4)"
    and b4: "i3 < length table \<longrightarrow> i4 < length table"
    using read_varint_total [of table i3] by blast
  from 1 2 3 4 b1 b2 b3 b4 show ?thesis by (simp add: long_form_def)
qed

lemma no_column_form_total:
  "\<exists>j r. no_column_form table i lineno = Inr (j, r) \<and> (i < length table \<longrightarrow> j < length table)"
  using read_signed_varint_total [of table i] by (auto simp: no_column_form_def)

lemma entry_cases:
  "i < length table \<Longrightarrow>
   entry table code i lineno loc = Inl Frame_LocationError \<or>
   (\<exists>j r. entry table code i lineno loc = Inr (j, r) \<and> j < length table)"
  using long_form_total [of table i lineno] no_column_form_total [of table i lineno]
  by (auto simp: entry_def new_lineno_form_def short_form_def rd_def)

lemma linetable_loop_in_bounds:
  "linetable_loop table lasti i bc lineno loc \<noteq> Inl (ReadPastEnd k)"
proof (induction table lasti i bc lineno loc rule: linetable_loop.induct)
  case (1 table lasti i bc lineno loc)
  show ?case
  proof (cases "i < length table")
    case False
    then show ?thesis by (simp add: linetable_loop.simps [of table lasti i])
  next
    case True
    then have b: "rd table i = Inr (table ! i)" by (simp add: rd_def)
    let ?code = "unat (drop_bit 3 (table ! i) AND 15)"
    from entry_cases [OF True, of ?code lineno loc] show ?thesis
    proof
      assume "entry table ?code i lineno loc = Inl Frame_LocationError"
      with True b show ?thesis by (simp add: linetable_loop.simps [of table lasti i])
    next
      assume "\<exists>j r. entry table ?code i lineno loc = Inr (j, r) \<and> j < length table"
      then obtain j l' loc' where e: "entry table ?code i lineno loc = Inr (j, l', loc')"
        by auto
      show ?thesis
      proof (cases "bc + (uint (table ! i AND 7) + 1) > sint lasti")
        case True
        with \<open>i < length table\<close> b e show ?thesis
          by (simp add: linetable_loop.simps [of table lasti i])
      next
        case False
        from "1.IH" [OF \<open>i < length table\<close> b e refl refl False]
        show ?thesis using \<open>i < length table\<close> b e False
          by (simp add: linetable_loop.simps [of table lasti i])
      qed
    qed
  qed
qed

declare linetable_loop.simps [simp del] delta_pair_loop.simps [simp del] lnotab_loop.simps [simp del]

subsection \<open>Concrete tables\<close>

text \<open>
  Claim C3, as amended. The legacy decoder (\<^verbatim>\<open>co_lnotab\<close>, Python 3.9 and earlier) on the
  table \<open>[0x02, 0x01]\<close>: the loop adds the bytecode delta 2 and leaves on \<^verbatim>\<open>bc > lasti\<close>
  before it applies the line delta, so a query below offset 2 (offset 0 among them) yields
  the first line number, and a query at offset 2 or beyond yields the first line number
  plus one.
\<close>

theorem legacy_pair_line:
  "ver < 0x030a0000 \<Longrightarrow>
   infer_location ver (Some \<lparr>ob_size = 2, ob_sval = [0x02, 0x01]\<rparr>) first lasti loc =
     Inr \<lparr>line = (if sint lasti < 2 then first else first + 1),
          line_end = (if sint lasti < 2 then first else first + 1),
          column = 0, column_end = 0\<rparr>"
  by (simp add: infer_location_def pybytes_to_bytes_and_size_def copy_generic_def rd_def
      lnotab_loop.simps [of _ _ 0] lnotab_loop.simps [of _ _ "Suc (Suc 0)"])

theorem legacy_pair_line_witness:
  "infer_location 0x03090000 (Some \<lparr>ob_size = 2, ob_sval = [0x02, 0x01]\<rparr>) 10 2 default_location =
     Inr \<lparr>line = 11, line_end = 11, column = 0, column_end = 0\<rparr>"
  using legacy_pair_line [of "0x03090000" 10 2 default_location] by simp

text \<open>
  Claim C3 as stated fails: with first line number 10 the legacy decoder answers line 10 at
  offset 0, not 11.
\<close>

theorem legacy_pair_line_counterexample:
  "infer_location 0x03090000 (Some \<lparr>ob_size = 2, ob_sval = [0x02, 0x01]\<rparr>) 10 0 default_location =
     Inr \<lparr>line = 10, line_end = 10, column = 0, column_end = 0\<rparr>
   \<and> (10 :: 32 word) \<noteq> 10 + 1"
  by (simp add: infer_location_def pybytes_to_bytes_and_size_def copy_generic_def rd_def
      lnotab_loop.simps [of _ _ 0])

text \<open>
  Claim C2, as amended. In the variable-length generation the byte \<open>0x00\<close> is a short-form
  entry (kind 0) that needs a second byte: alone in the table it makes the decoder throw
  \<^verbatim>\<open>LocationError\<close>. The no-op entry is kind 15, the byte \<open>0x78\<close>: alone in the table it
  yields the code object's first line number with both columns 0, at every offset.
\<close>

theorem single_byte_linetable:
  "ver \<ge> 0x030b0000 \<Longrightarrow>
   infer_location ver (Some \<lparr>ob_size = 1, ob_sval = [0x00]\<rparr>) first lasti loc =
     Inl Frame_LocationError
   \<and> infer_location ver (Some \<lparr>ob_size = 1, ob_sval = [0x78]\<rparr>) first lasti loc =
     Inr \<lparr>line = first, line_end = first, column = 0, column_end = 0\<rparr>"
  by (simp add: infer_location_def pybytes_to_bytes_and_size_def copy_generic_def rd_def
      linetable_loop.simps [of _ _ 0] linetable_loop.simps [of _ _ "Suc 0"]
      entry_def short_form_def)

theorem single_byte_linetable_witness:
  "infer_location 0x030b0000 (Some \<lparr>ob_size = 1, ob_sval = [0x00]\<rparr>) 10 0 default_location =
     Inl Frame_LocationError
   \<and> infer_location 0x030b0000 (Some \<lparr>ob_size = 1, ob_sval = [0x78]\<rparr>) 10 0 default_location =
     Inr \<lparr>line = 10, line_end = 10, column = 0, column_end = 0\<rparr>"
  using single_byte_linetable [of "0x030b0000" 10 0 default_location] by simp

text \<open>Claim C2 as stated fails: decoding \<open>[0x00]\<close> at offset 0 does not succeed.\<close>

theorem single_byte_linetable_counterexample:
  "infer_location 0x030b0000 (Some \<lparr>ob_size = 1, ob_sval = [0x00]\<rparr>) 10 0 default_location =
     Inl Frame_LocationError"
  by (simp add: infer_location_def pybytes_to_bytes_and_size_def copy_generic_def rd_def
      linetable_loop.simps [of _ _ 0] entry_def short_form_def)

text \<open>
  Claim C4, the code at a failing input. The table \<open>[0x50, 5, 9]\<close> is one fixed-delta entry
  (kind 10) with the stored columns 5 and 9. The loop assigns the columns 6 and 10, one
  more than the stored bytes; the assignments after \<^verbatim>\<open>#endif\<close> then set both columns to 0,
  and 0 is what the constructed frame carries.
\<close>

theorem columns_reset_at_fixed_delta_entry:
  "linetable_loop [0x50, 5, 9] 0 0 0 10 default_location =
     Inr (10, \<lparr>line = 10, line_end = 10, column = 6, column_end = 10\<rparr>)
   \<and> infer_location 0x030b0000 (Some \<lparr>ob_size = 3, ob_sval = [0x50, 5, 9]\<rparr>) 10 0 default_location =
     Inr \<lparr>line = 10, line_end = 10, column = 0, column_end = 0\<rparr>"
  by (simp add: infer_location_def pybytes_to_bytes_and_size_def copy_generic_def rd_def
      linetable_loop.simps [of _ _ 0] entry_def new_lineno_form_def)

text \<open>Whatever the table, a location that \<^verbatim>\<open>infer_location\<close> returns has both columns 0.\<close>

lemma infer_location_columns:
  "infer_location ver obj first lasti loc = Inr l \<Longrightarrow> column l = 0 \<and> column_end l = 0"
  by (auto simp: infer_location_def split: option.splits sum.splits if_splits)

subsection \<open>Truncated entries\<close>

lemma last_byte_varint:
  "sz \<le> i + 1 \<Longrightarrow> read_varint table sz i = Inr (0, i)"
  by (simp add: read_varint_def)

lemma last_byte_signed_varint:
  "sz \<le> i + 1 \<Longrightarrow> read_signed_varint table sz i = Inr (0, i)"
  by (simp add: read_signed_varint_def last_byte_varint)

text \<open>
  Claim C1, as amended. In the variable-length generation (Python 3.11 and later):
  decoding never indexes the table at or beyond its size; when the loop stands at a
  fixed-delta entry (kinds 10 to 12) whose two column bytes are not both inside the table,
  or at a short-form entry (kinds 0 to 9) whose second byte is not inside the table, it
  throws \<^verbatim>\<open>LocationError\<close>; a long-form (kind 14) or line-only (kind 13) entry never
  throws, whatever follows it: standing at the last byte of the table, each of its
  variable-length integers is read as 0 and decoding succeeds.
\<close>

theorem linetable_decode_faults:
  "(0x030b0000 \<le> ver \<longrightarrow> infer_location ver obj first lasti loc \<noteq> Inl (ReadPastEnd k))
   \<and> (i < length table \<and> unat (drop_bit 3 (table ! i) AND 15) \<in> {10, 11, 12}
        \<and> length table \<le> i + 2 \<longrightarrow>
      linetable_loop table lasti i bc lineno loc = Inl Frame_LocationError)
   \<and> (i < length table \<and> unat (drop_bit 3 (table ! i) AND 15) < 10
        \<and> length table \<le> i + 1 \<longrightarrow>
      linetable_loop table lasti i bc lineno loc = Inl Frame_LocationError)
   \<and> (i < length table \<and> unat (drop_bit 3 (table ! i) AND 15) \<in> {13, 14}
        \<and> length table = i + 1 \<longrightarrow>
      linetable_loop table lasti i bc lineno loc =
        Inr (lineno, \<lparr>line = lineno, line_end = lineno, column = 0, column_end = 0\<rparr>))
   \<and> (code \<in> {13, 14} \<longrightarrow> (\<exists>r. entry table code i lineno loc = Inr r))"
proof (intro conjI impI)
  assume "0x030b0000 \<le> ver"
  then show "infer_location ver obj first lasti loc \<noteq> Inl (ReadPastEnd k)"
    using linetable_loop_in_bounds [of _ lasti 0 0 first loc k]
    by (auto simp: infer_location_def split: option.splits sum.splits)
next
  assume "i < length table \<and> unat (drop_bit 3 (table ! i) AND 15) \<in> {10, 11, 12}
        \<and> length table \<le> i + 2"
  then show "linetable_loop table lasti i bc lineno loc = Inl Frame_LocationError"
    by (auto simp: linetable_loop.simps [of table lasti i] rd_def entry_def new_lineno_form_def)
next
  assume "i < length table \<and> unat (drop_bit 3 (table ! i) AND 15) < 10
        \<and> length table \<le> i + 1"
  then show "linetable_loop table lasti i bc lineno loc = Inl Frame_LocationError"
    by (auto simp: linetable_loop.simps [of table lasti i] rd_def entry_def short_form_def)
next
  assume a: "i < length table \<and> unat (drop_bit 3 (table ! i) AND 15) \<in> {13, 14}
        \<and> length table = i + 1"
  then have "entry table (unat (drop_bit 3 (table ! i) AND 15)) i lineno loc =
      Inr (i, lineno, \<lparr>line = lineno, line_end = lineno, column = 0, column_end = 0\<rparr>)"
    by (auto simp: entry_def long_form_def no_column_form_def last_byte_varint
        last_byte_signed_varint)
  with a show "linetable_loop table lasti i bc lineno loc =
        Inr (lineno, \<lparr>line = lineno, line_end = lineno, column = 0, column_end = 0\<rparr>)"
    by (simp add: linetable_loop.simps [of table lasti i]
        linetable_loop.simps [of table lasti "Suc i"] rd_def)
next
  assume "code \<in> {13, 14}"
  then show "\<exists>r. entry table code i lineno loc = Inr r"
    using long_form_total [of table i lineno] no_column_form_total [of table i lineno]
    by (auto simp: entry_def)
qed

theorem linetable_decode_faults_witness:
  "infer_location 0x030b0000 (Some \<lparr>ob_size = 1, ob_sval = [0x70]\<rparr>) 10 0 default_location
     \<noteq> Inl (ReadPastEnd 1)
   \<and> linetable_loop [0x50, 5] 0 0 0 10 default_location = Inl Frame_LocationError
   \<and> linetable_loop [0x08] 0 0 0 10 default_location = Inl Frame_LocationError
   \<and> linetable_loop [0x70] 0 0 0 10 default_location =
       Inr (10, \<lparr>line = 10, line_end = 10, column = 0, column_end = 0\<rparr>)
   \<and> (\<exists>r. entry [0x70, 0x42] 14 0 10 default_location = Inr r)"
  using linetable_decode_faults [of "0x030b0000" "Some \<lparr>ob_size = 1, ob_sval = [0x70]\<rparr>" 10 0
      default_location 1 0 "[0x50, 5]" 0 10 14]
    linetable_decode_faults [of "0x030b0000" "Some \<lparr>ob_size = 1, ob_sval = [0x70]\<rparr>" 10 0
      default_location 1 0 "[0x08]" 0 10 14]
    linetable_decode_faults [of "0x030b0000" "Some \<lparr>ob_size = 1, ob_sval = [0x70]\<rparr>" 10 0
      default_location 1 0 "[0x70]" 0 10 14]
    linetable_decode_faults [of "0x030b0000" "Some \<lparr>ob_size = 1, ob_sval = [0x70]\<rparr>" 10 0
      default_location 1 0 "[0x70, 0x42]" 0 10 14]
  by simp

text \<open>
  Claim C1 as stated fails: the table \<open>[0x70]\<close> is a long-form entry (kind 14) whose four
  variable-length integers all lie beyond the table, and decoding it at offset 0 returns
  a location instead of throwing \<^verbatim>\<open>LocationError\<close>.
\<close>

theorem linetable_decode_faults_counterexample:
  "infer_location 0x030b0000 (Some \<lparr>ob_size = 1, ob_sval = [0x70]\<rparr>) 10 0 default_location =
     Inr \<lparr>line = 10, line_end = 10, column = 0, column_end = 0\<rparr>"
  by (simp add: infer_location_def pybytes_to_bytes_and_size_def copy_generic_def rd_def
      linetable_loop.simps [of _ _ 0] linetable_loop.simps [of _ _ "Suc 0"] entry_def long_form_def
      read_signed_varint_def read_varint_def)

text \<open>
  The two older generations test nothing before \<^verbatim>\<open>table[i]\<close> after \<^verbatim>\<open>i++\<close>: a table of odd
  size is indexed at its size.
\<close>

lemma odd_table_read_past_end:
  "ver < 0x030b0000 \<Longrightarrow>
   infer_location ver (Some \<lparr>ob_size = 1, ob_sval = [0x00]\<rparr>) first 0 loc = Inl (ReadPastEnd 1)"
  by (simp add: infer_location_def pybytes_to_bytes_and_size_def copy_generic_def rd_def
      lnotab_loop.simps [of _ _ 0] delta_pair_loop.simps [of _ _ 0])

section \<open>Properties of the integer encoding\<close>

subsection \<open>The bits of the constants\<close>

lemma bit_int_0x80: "bit (0x80 :: int) n \<longleftrightarrow> n = 7"
proof -
  have "bit (2 ^ 7 :: int) n \<longleftrightarrow> n = 7"
    by (simp only: bit_exp_iff possible_bit_int) auto
  then show ?thesis by simp
qed

lemma bit_int_0x40: "bit (0x40 :: int) n \<longleftrightarrow> n = 6"
proof -
  have "bit (2 ^ 6 :: int) n \<longleftrightarrow> n = 6"
    by (simp only: bit_exp_iff possible_bit_int) auto
  then show ?thesis by simp
qed

lemma bit_int_0x7f: "bit (0x7f :: int) n \<longleftrightarrow> n < 7"
proof -
  have "bit (mask 7 :: int) n \<longleftrightarrow> n < 7"
    by (simp only: bit_mask_iff possible_bit_int) auto
  then show ?thesis by (simp add: mask_eq_exp_minus_1)
qed

lemma bit_int_0x3f: "bit (0x3f :: int) n \<longleftrightarrow> n < 6"
proof -
  have "bit (mask 6 :: int) n \<longleftrightarrow> n < 6"
    by (simp only: bit_mask_iff possible_bit_int) auto
  then show ?thesis by (simp add: mask_eq_exp_minus_1)
qed

lemmas byte_bits =
  bit_int_0x80 bit_int_0x40 bit_int_0x7f bit_int_0x3f bit_and_iff bit_or_iff bit_ucast_iff

subsection \<open>The bytes the encoder writes\<close>

lemma uint_low7: "uint (ucast (w AND 0x7f :: 64 word) :: byte) = uint w mod 128"
proof -
  have "w AND 0x7f = take_bit 7 w"
    by (rule bit_word_eqI) (auto simp: byte_bits bit_take_bit_iff)
  moreover have "uint (ucast (take_bit 7 w) :: byte) = take_bit 7 (uint w)"
    by (rule bit_eqI) (auto simp: bit_simps)
  ultimately show ?thesis
    by (simp add: take_bit_eq_mod)
qed

lemma uint_low6: "uint (ucast (w AND 0x3f :: 64 word) :: byte) = uint w mod 64"
proof -
  have "w AND 0x3f = take_bit 6 w"
    by (rule bit_word_eqI) (auto simp: byte_bits bit_take_bit_iff)
  moreover have "uint (ucast (take_bit 6 w) :: byte) = take_bit 6 (uint w)"
    by (rule bit_eqI) (auto simp: bit_simps)
  ultimately show ?thesis by (simp add: take_bit_eq_mod)
qed

lemma later_byte:
  fixes w :: "64 word"
  shows "(ucast (w AND 0x7f) OR 0x80 :: byte) AND 0x80 \<noteq> 0"
    and "uint ((ucast (w AND 0x7f) OR 0x80 :: byte) AND 0x7f) = uint w mod 128"
    and "(ucast (w AND 0x7f) :: byte) AND 0x80 = 0"
    and "uint ((ucast (w AND 0x7f) :: byte) AND 0x7f) = uint w mod 128"
proof -
  have e: "(ucast (w AND 0x7f) OR 0x80 :: byte) AND 0x7f = ucast (w AND 0x7f)"
    "(ucast (w AND 0x7f) :: byte) AND 0x7f = ucast (w AND 0x7f)"
    by (rule bit_word_eqI; auto simp: byte_bits)+
  show "uint ((ucast (w AND 0x7f) OR 0x80 :: byte) AND 0x7f) = uint w mod 128"
    and "uint ((ucast (w AND 0x7f) :: byte) AND 0x7f) = uint w mod 128"
    by (simp_all only: e uint_low7)
  show "(ucast (w AND 0x7f) :: byte) AND 0x80 = 0"
    by (rule bit_word_eqI) (auto simp: byte_bits)
  have "bit ((ucast (w AND 0x7f) OR 0x80 :: byte) AND 0x80) 7"
    by (simp add: byte_bits)
  then show "(ucast (w AND 0x7f) OR 0x80 :: byte) AND 0x80 \<noteq> 0"
    by auto
qed

lemma first_byte:
  fixes w :: "64 word"
  shows "uint ((ucast (w AND 0x3f) :: byte) AND 0x3f) = uint w mod 64"
    and "uint ((ucast (w AND 0x3f) OR 0x40 :: byte) AND 0x3f) = uint w mod 64"
    and "uint ((ucast (w AND 0x3f) OR 0x80 :: byte) AND 0x3f) = uint w mod 64"
    and "uint (((ucast (w AND 0x3f) OR 0x40) OR 0x80 :: byte) AND 0x3f) = uint w mod 64"
    and "(ucast (w AND 0x3f) :: byte) AND 0x40 = 0"
    and "(ucast (w AND 0x3f) OR 0x40 :: byte) AND 0x40 \<noteq> 0"
    and "(ucast (w AND 0x3f) OR 0x80 :: byte) AND 0x40 = 0"
    and "((ucast (w AND 0x3f) OR 0x40) OR 0x80 :: byte) AND 0x40 \<noteq> 0"
    and "(ucast (w AND 0x3f) :: byte) AND 0x80 = 0"
    and "(ucast (w AND 0x3f) OR 0x40 :: byte) AND 0x80 = 0"
    and "(ucast (w AND 0x3f) OR 0x80 :: byte) AND 0x80 \<noteq> 0"
    and "((ucast (w AND 0x3f) OR 0x40) OR 0x80 :: byte) AND 0x80 \<noteq> 0"
proof -
  have e: "(ucast (w AND 0x3f) :: byte) AND 0x3f = ucast (w AND 0x3f)"
    "(ucast (w AND 0x3f) OR 0x40 :: byte) AND 0x3f = ucast (w AND 0x3f)"
    "(ucast (w AND 0x3f) OR 0x80 :: byte) AND 0x3f = ucast (w AND 0x3f)"
    "((ucast (w AND 0x3f) OR 0x40) OR 0x80 :: byte) AND 0x3f = ucast (w AND 0x3f)"
    by (rule bit_word_eqI; auto simp: byte_bits)+
  show "uint ((ucast (w AND 0x3f) :: byte) AND 0x3f) = uint w mod 64"
    and "uint ((ucast (w AND 0x3f) OR 0x40 :: byte) AND 0x3f) = uint w mod 64"
    and "uint ((ucast (w AND 0x3f) OR 0x80 :: byte) AND 0x3f) = uint w mod 64"
    and "uint (((ucast (w AND 0x3f) OR 0x40) OR 0x80 :: byte) AND 0x3f) = uint w mod 64"
    by (simp_all only: e uint_low6)
  show "(ucast (w AND 0x3f) :: byte) AND 0x40 = 0"
    and "(ucast (w AND 0x3f) OR 0x80 :: byte) AND 0x40 = 0"
    and "(ucast (w AND 0x3f) :: byte) AND 0x80 = 0"
    and "(ucast (w AND 0x3f) OR 0x40 :: byte) AND 0x80 = 0"
    by (rule bit_word_eqI; auto simp: byte_bits)+
  have "bit ((ucast (w AND 0x3f) OR 0x40 :: byte) AND 0x40) 6"
    and "bit (((ucast (w AND 0x3f) OR 0x40) OR 0x80 :: byte) AND 0x40) 6"
    and "bit ((ucast (w AND 0x3f) OR 0x80 :: byte) AND 0x80) 7"
    and "bit (((ucast (w AND 0x3f) OR 0x40) OR 0x80 :: byte) AND 0x80) 7"
    by (simp_all add: byte_bits)
  then show "(ucast (w AND 0x3f) OR 0x40 :: byte) AND 0x40 \<noteq> 0"
    and "((ucast (w AND 0x3f) OR 0x40) OR 0x80 :: byte) AND 0x40 \<noteq> 0"
    and "(ucast (w AND 0x3f) OR 0x80 :: byte) AND 0x80 \<noteq> 0"
    and "((ucast (w AND 0x3f) OR 0x40) OR 0x80 :: byte) AND 0x80 \<noteq> 0"
    by auto
qed

lemma uint_drop_bit_7: "uint (drop_bit 7 (w :: 64 word)) = uint w div 128"
  by (simp add: drop_bit_eq_div uint_div)

lemma uint_drop_bit_6: "uint (drop_bit 6 (w :: 64 word)) = uint w div 64"
  by (simp add: drop_bit_eq_div uint_div)

text \<open>The magnitude the encoder starts from is the absolute value of its argument.\<close>

lemma uint_magnitude: "uint (if sint n < 0 then - n else n :: 64 word) = \<bar>sint n\<bar>"
proof -
  have lo: "- (2 ^ 63) \<le> sint n" and hi: "sint n < 2 ^ 63"
    using sint_ge [of n] sint_lt [of n] by simp_all
  have u: "uint n = sint n mod 2 ^ 64"
    using uint_sint [of n] by (simp add: take_bit_eq_mod)
  show ?thesis
  proof (cases "sint n < 0")
    case False
    with hi u show ?thesis by simp
  next
    case True
    have "uint (- n) = (- uint n) mod 2 ^ 64"
      by (simp add: uint_word_ariths)
    also have "\<dots> = (- sint n) mod 2 ^ 64"
      unfolding u by (simp add: mod_minus_eq)
    also have "\<dots> = - sint n"
      using True lo by simp
    finally show ?thesis using True by simp
  qed
qed

subsection \<open>Decoding what the encoder wrote\<close>

lemma chunk_sum: "(a::int) mod 128 * 2 ^ s + a div 128 * 2 ^ (s + 7) = a * 2 ^ s"
proof -
  have g: "r * p + q * (p * 2 ^ 7) = (r + 128 * q) * p" for r p q :: int
    by (simp add: algebra_simps)
  show ?thesis unfolding power_add g by simp
qed

lemma decode_tail_loop:
  "w \<noteq> 0 \<Longrightarrow> spec_decode_tail (integer_loop w @ rest) shift = Some (uint w * 2 ^ shift, rest)"
proof (induction w arbitrary: shift rule: integer_loop.induct)
  case (1 w)
  show ?case
  proof (cases "drop_bit 7 w = 0")
    case True
    then have "uint w div 128 = 0" using uint_drop_bit_7 [of w] by simp
    then have "uint w mod 128 = uint w"
      by (metis add.left_neutral mult_zero_right mult_div_mod_eq)
    with True "1.prems" show ?thesis
      by (simp add: integer_loop.simps [of w] integer_loop.simps [of 0] later_byte)
  next
    case False
    have "uint w mod 128 * 2 ^ shift + uint w div 128 * 2 ^ (shift + 7) = uint w * 2 ^ shift"
      by (rule chunk_sum)
    with False "1.prems" "1.IH" [OF "1.prems" False, of "shift + 7"] show ?thesis
      by (simp add: integer_loop.simps [of w] later_byte uint_drop_bit_7)
  qed
qed

lemma integer_decodes_to_magnitude:
  "spec_decode_integer (MojoRenderer_integer n @ rest) =
     Some (if sint n < 0 then - uint (if sint n < 0 then - n else n)
           else uint (if sint n < 0 then - n else n), rest)"
proof -
  define w where "w = (if sint n < 0 then - n else n)"
  have split: "uint w mod 64 + uint w div 64 * 2 ^ 6 = uint w" by simp
  show ?thesis
  proof (cases "drop_bit 6 w = 0")
    case True
    then have "uint w div 64 = 0" using uint_drop_bit_6 [of w] by simp
    then have "uint w mod 64 = uint w"
      by (metis add.left_neutral mult_zero_right mult_div_mod_eq)
    with True show ?thesis
      unfolding w_def [symmetric]
      by (simp add: MojoRenderer_integer_def spec_decode_integer_def Let_def w_def [symmetric]
          first_byte integer_loop.simps [of 0])
  next
    case False
    with split decode_tail_loop [OF False, of rest 6] show ?thesis
      unfolding w_def [symmetric]
      by (simp add: MojoRenderer_integer_def spec_decode_integer_def Let_def w_def [symmetric]
          first_byte uint_drop_bit_6)
  qed
qed

text \<open>
  Claim C9. For every \<^verbatim>\<open>mojo_int_t\<close> \<open>n\<close> whose value lies in \<open>[-2^40, 2^40]\<close>, decoding the
  bytes \<^verbatim>\<open>MojoRenderer::integer\<close> writes for \<open>n\<close> with the decoder of the specification
  gives back exactly the value of \<open>n\<close>, and leaves whatever bytes follow.
\<close>

theorem integer_roundtrip:
  "- (2 ^ 40) \<le> sint n \<Longrightarrow> sint n \<le> 2 ^ 40 \<Longrightarrow>
   spec_decode_integer (MojoRenderer_integer n @ rest) = Some (sint n, rest)"
  using integer_decodes_to_magnitude [of n rest] uint_magnitude [of n]
  by (simp split: if_splits)

theorem integer_roundtrip_witness:
  "spec_decode_integer (MojoRenderer_integer (- (2 ^ 40)) @ []) = Some (- (2 ^ 40), [])
   \<and> spec_decode_integer (MojoRenderer_integer 0 @ []) = Some (0, [])
   \<and> spec_decode_integer (MojoRenderer_integer (- 64) @ [7]) = Some (- 64, [7])
   \<and> spec_decode_integer (MojoRenderer_integer (2 ^ 40) @ []) = Some (2 ^ 40, [])"
  using integer_roundtrip [of "- (2 ^ 40)" "[]"] integer_roundtrip [of 0 "[]"]
    integer_roundtrip [of "- 64" "[7]"] integer_roundtrip [of "2 ^ 40" "[]"]
  by simp

section \<open>Properties of the string table\<close>

lemmas example_defs =
  example_build_def example_memory_def example_state_def StringTable_new_def
  StringTable_INVALID_def StringTable_UNKNOWN_def LRUCache_new_def

lemmas string_defs =
  StringTable_key_def pyunicode_to_utf8_def pylong_to_llong_def copy_generic_def

lemma pyunicode_oversize:
  "unicode_at mem s = Some str \<Longrightarrow>
   (if state_compact str then ascii_length str else utf8_length str) < 0
   \<or> (if state_compact str then ascii_length str else utf8_length str) > 1024 \<Longrightarrow>
   pyunicode_to_utf8 cfg mem s = (Inl StringError, [Copy_type s])"
  by (auto simp: pyunicode_to_utf8_def Let_def)

lemma pylong_not_long:
  "map_option ob_type_is_PyLong (long_at mem s) \<noteq> Some True \<Longrightarrow>
   pylong_to_llong cfg mem s = (Inl LongError, [Copy_type s])"
  by (auto simp: pylong_to_llong_def split: option.splits)

text \<open>
  Claim C6. Let the object at address \<open>s\<close> be a text object (its header can be copied, and
  on Python 3.12 and later it is not a boxed integer) whose declared length, \<^verbatim>\<open>length\<close> for a compact string and
  \<^verbatim>\<open>utf8_length\<close> otherwise, is negative or exceeds the ceiling 1024, and let \<open>s\<close> have no
  entry in the table yet. Then \<^verbatim>\<open>StringTable::key\<close> throws \<^verbatim>\<open>StringTable::Error\<close> and
  the table afterwards is the table before: nothing is entered under \<open>s\<close>.
\<close>

theorem oversize_text_not_interned:
  assumes "tbl s = None"
    and "unicode_at mem s = Some str"
    and "PY_VERSION_HEX cfg < 0x030c0000
         \<or> map_option ob_type_is_PyLong (long_at mem s) \<noteq> Some True"
    and "(if state_compact str then ascii_length str else utf8_length str) < 0
         \<or> (if state_compact str then ascii_length str else utf8_length str) > 1024"
  shows "fst (StringTable_key cfg mem tbl s) = Inl StringTable_Error
         \<and> fst (snd (StringTable_key cfg mem tbl s)) = tbl"
proof (cases "PY_VERSION_HEX cfg < 0x030c0000")
  case True
  with assms(1) pyunicode_oversize [OF assms(2) assms(4), of cfg] show ?thesis
    by (simp add: StringTable_key_def)
next
  case False
  with assms(3) have "map_option ob_type_is_PyLong (long_at mem s) \<noteq> Some True"
    by simp
  from assms(1) pyunicode_oversize [OF assms(2) assms(4), of cfg] pylong_not_long [OF this, of cfg]
  show ?thesis
    by (simp add: StringTable_key_def)
qed

theorem oversize_text_not_interned_witness:
  "fst (StringTable_key example_build example_memory StringTable_new 0x4000) = Inl StringTable_Error
   \<and> fst (snd (StringTable_key example_build example_memory StringTable_new 0x4000)) = StringTable_new"
proof -
  have 1: "StringTable_new (0x4000 :: addr) = None"
    by (simp add: example_defs)
  have 2: "unicode_at example_memory 0x4000 =
     Some \<lparr>state_kind = 1, state_compact = True, ascii_length = 2000, utf8 = 0, utf8_length = 0\<rparr>"
    by (simp add: example_defs)
  have 3: "PY_VERSION_HEX example_build < 0x030c0000
         \<or> map_option ob_type_is_PyLong (long_at example_memory 0x4000) \<noteq> Some True"
    by (simp add: example_defs)
  show ?thesis
    using oversize_text_not_interned [where tbl = StringTable_new and s = "0x4000"
        and mem = example_memory and cfg = example_build, OF 1 2 3]
    by simp
qed

text \<open>
  Claim C7, as amended. If interning the address \<open>s\<close> succeeds with key \<open>k\<close>, then \<open>k\<close> is
  \<open>s\<close>, and interning \<open>s\<close> again (whatever the memory has become) returns the same key,
  leaves the table as it is and makes no copy from foreign memory. The copies are all
  made by the first call: for an address not interned before, a header copy and a byte
  copy before Python 3.12; from 3.12 on, the header copy of the boxed-integer test (alone,
  when the object is a boxed integer), then the header copy and the byte copy of the text.
\<close>

theorem second_intern_reads_nothing:
  assumes "StringTable_key cfg mem tbl s = (Inr k, tbl1, c1)"
  shows "StringTable_key cfg' mem' tbl1 s = (Inr k, tbl1, [])
         \<and> k = s
         \<and> (tbl s = None \<and> PY_VERSION_HEX cfg < 0x030c0000 \<longrightarrow>
              (\<exists>d n. c1 = [Copy_type s, Copy_generic d n]))
         \<and> (tbl s = None \<and> PY_VERSION_HEX cfg \<ge> 0x030c0000 \<longrightarrow>
              c1 = [Copy_type s] \<or> (\<exists>d n. c1 = [Copy_type s, Copy_type s, Copy_generic d n]))"
proof -
  have k: "k = s" and t1: "tbl1 s \<noteq> None"
    using assms
    by (auto simp: StringTable_key_def split: if_splits prod.splits sum.splits string_exn.splits)
  have u: "pyunicode_to_utf8 cfg mem s = (Inr str, c) \<Longrightarrow> \<exists>d n. c = [Copy_type s, Copy_generic d n]"
    for str c
    by (auto simp: pyunicode_to_utf8_def Let_def split: option.splits if_splits)
  have l: "pylong_to_llong cfg mem s = (r, c) \<Longrightarrow> c = [Copy_type s]" for r c
    by (auto simp: pylong_to_llong_def split: option.splits if_splits)
  have old: "tbl s = None \<and> PY_VERSION_HEX cfg < 0x030c0000 \<longrightarrow>
              (\<exists>d n. c1 = [Copy_type s, Copy_generic d n])"
    using assms u
    by (auto simp: StringTable_key_def split: if_splits prod.splits sum.splits)
  have new: "tbl s = None \<and> PY_VERSION_HEX cfg \<ge> 0x030c0000 \<longrightarrow>
              c1 = [Copy_type s] \<or> (\<exists>d n. c1 = [Copy_type s, Copy_type s, Copy_generic d n])"
    using assms u l
    by (fastforce simp: StringTable_key_def split: if_splits prod.splits sum.splits string_exn.splits)
  from k t1 old new show ?thesis
    by (auto simp: StringTable_key_def)
qed

lemma example_first_intern:
  "fst (StringTable_key example_build example_memory StringTable_new 0x2000) = Inr 0x2000
   \<and> snd (snd (StringTable_key example_build example_memory StringTable_new 0x2000)) =
       [Copy_type 0x2000, Copy_generic 0x2030 4]"
  by (simp add: example_defs string_defs)

theorem second_intern_reads_nothing_witness:
  "StringTable_key example_build example_memory
      (fst (snd (StringTable_key example_build example_memory StringTable_new 0x2000))) 0x2000 =
     (Inr 0x2000, fst (snd (StringTable_key example_build example_memory StringTable_new 0x2000)), [])
   \<and> snd (snd (StringTable_key example_build example_memory StringTable_new 0x2000)) =
       [Copy_type 0x2000, Copy_generic 0x2030 4]"
proof -
  have "StringTable_key example_build example_memory StringTable_new 0x2000 =
     (Inr 0x2000, fst (snd (StringTable_key example_build example_memory StringTable_new 0x2000)),
      snd (snd (StringTable_key example_build example_memory StringTable_new 0x2000)))"
    using example_first_intern
    by (metis prod.collapse)
  from second_intern_reads_nothing [OF this, of example_build example_memory] example_first_intern
  show ?thesis by simp
qed

text \<open>
  Claim C7 as stated fails on the count: interning the text object at \<open>0x2000\<close> twice makes
  two copies from foreign memory, not one.
\<close>

theorem second_intern_reads_nothing_counterexample:
  "length
     (snd (snd (StringTable_key example_build example_memory StringTable_new 0x2000))
      @ snd (snd (StringTable_key example_build example_memory
           (fst (snd (StringTable_key example_build example_memory StringTable_new 0x2000)))
           0x2000))) = 2"
  by (simp add: example_defs string_defs)

section \<open>Properties of frame resolution\<close>

lemmas frame_defs =
  Frame_get_code_def Frame_of_code_def Frame_key_def announce_and_store_def
  MojoRenderer_frame_def LRUCache_lookup_def LRUCache_store_def
  StringTable_key_def pyunicode_to_utf8_def copy_generic_def
  infer_location_def pybytes_to_bytes_and_size_def rd_def entry_def new_lineno_form_def
  default_location_def

text \<open>
  Claim C5, the code at a failing input. Resolving the code object at \<open>0x10\<close> in a fresh
  state writes exactly one record to the trace: the frame record, which names the string
  keys \<open>0x2000\<close> and \<open>0x3000\<close>. No string record declares either key, before or with it.
\<close>

theorem frame_record_without_string_records:
  "mojo (snd (Frame_get_code example_build example_memory example_state 0x10 0)) =
     [MOJO_FRAME 0x100000 0x2000 0x3000 10 10 0 0]
   \<and> \<not> strings_declared_before_use []
         (mojo (snd (Frame_get_code example_build example_memory example_state 0x10 0)))"
proof -
  have "mojo (snd (Frame_get_code example_build example_memory example_state 0x10 0)) =
     [MOJO_FRAME 0x100000 0x2000 0x3000 10 10 0 0]"
    by (simp add: example_defs frame_defs linetable_loop.simps [of _ _ 0])
  then show ?thesis by simp
qed

subsection \<open>Native frames\<close>

text \<open>
  Claim C8, as amended. A cursor whose program counter is 0 makes \<^verbatim>\<open>Frame::get(cursor)\<close>
  throw \<^verbatim>\<open>Frame::Error\<close> to its caller, the state untouched. For a cursor with a program
  counter other than 0 that misses the frame cache, if the unwinder gives no procedure
  information, or gives a start address that is not the program counter and has no entry
  in the string table and then gives no procedure name, \<^verbatim>\<open>Frame::get(cursor)\<close> returns
  the unknown sentinel and leaves the cache and the trace as they were.
\<close>

theorem native_frame_without_symbol:
  "(reg_ip cursor = 0 \<longrightarrow> Frame_get_cursor cfg st cursor = (Inl Frame_Error, st))
   \<and> (reg_ip cursor \<noteq> 0 \<and> map_of (items (frame_cache st)) (reg_ip cursor) = None
        \<and> (proc_info_start_ip cursor = None
            \<or> (\<exists>k. proc_info_start_ip cursor = Some k \<and> k \<noteq> reg_ip cursor
                  \<and> string_table st k = None \<and> proc_name cursor = None))
      \<longrightarrow> fst (Frame_get_cursor cfg st cursor) = Inr Ref_UNKNOWN_FRAME
          \<and> frame_cache (snd (Frame_get_cursor cfg st cursor)) = frame_cache st
          \<and> mojo (snd (Frame_get_cursor cfg st cursor)) = mojo st)"
  by (auto simp: Frame_get_cursor_def Frame_of_cursor_def StringTable_key_pc_def
      StringTable_key_cursor_def LRUCache_lookup_def Let_def)

theorem native_frame_without_symbol_witness:
  "Frame_get_cursor example_build example_state
      \<lparr>reg_ip = 0, proc_info_start_ip = None, proc_name = None, demangled = None\<rparr> =
     (Inl Frame_Error, example_state)
   \<and> fst (Frame_get_cursor example_build example_state
      \<lparr>reg_ip = 0x7000, proc_info_start_ip = None, proc_name = None, demangled = None\<rparr>) =
     Inr Ref_UNKNOWN_FRAME
   \<and> fst (Frame_get_cursor example_build example_state
      \<lparr>reg_ip = 0x7000, proc_info_start_ip = Some 0x6ff0, proc_name = None, demangled = None\<rparr>) =
     Inr Ref_UNKNOWN_FRAME"
  using native_frame_without_symbol [of
      "\<lparr>reg_ip = 0, proc_info_start_ip = None, proc_name = None, demangled = None\<rparr>"
      example_build example_state]
    native_frame_without_symbol [of
      "\<lparr>reg_ip = 0x7000, proc_info_start_ip = None, proc_name = None, demangled = None\<rparr>"
      example_build example_state]
    native_frame_without_symbol [of
      "\<lparr>reg_ip = 0x7000, proc_info_start_ip = Some 0x6ff0, proc_name = None, demangled = None\<rparr>"
      example_build example_state]
  by (simp add: example_defs)

text \<open>
  Claim C8 as stated fails: for a cursor with program counter 0 and no symbol the call
  throws instead of returning the unknown sentinel.
\<close>

theorem native_frame_without_symbol_counterexample:
  "Frame_get_cursor example_build example_state
      \<lparr>reg_ip = 0, proc_info_start_ip = None, proc_name = None, demangled = None\<rparr> =
     (Inl Frame_Error, example_state)"
  by (simp add: Frame_get_cursor_def)

subsection \<open>Cached frames\<close>

lemma map_of_filter_other:
  "k' \<noteq> k \<Longrightarrow> map_of (filter (\<lambda>e. fst e \<noteq> k) xs) k' = map_of xs k'"
  by (induction xs) auto

lemma LRUCache_lookup_None:
  "LRUCache_lookup c k = None \<longleftrightarrow> map_of (items c) k = None"
  by (simp add: LRUCache_lookup_def split: option.splits)

lemma LRUCache_lookup_Some:
  "LRUCache_lookup c k = Some (v, c') \<Longrightarrow>
   map_of (items c) k = Some v \<and> map_of (items c') = map_of (items c)"
  by (auto simp: LRUCache_lookup_def map_of_filter_other split: option.splits)

lemma map_of_take_Some:
  "map_of (take n xs) k = Some v \<Longrightarrow> map_of xs k = Some v"
proof (induction xs arbitrary: n)
  case Nil
  then show ?case by simp
next
  case (Cons x xs)
  then show ?case by (cases n) (auto split: if_splits)
qed

lemma map_of_take_same:
  "map_of (take n xs) k = Some v \<Longrightarrow> map_of xs k = Some w \<Longrightarrow> v = w"
  by (drule map_of_take_Some) simp

lemma is_entry_only: "\<exists>e. (f :: Frame) = f\<lparr>is_entry := e\<rparr>"
  by (rule exI [of _ "is_entry f"]) simp

lemma map_of_update_first:
  "map_of (update_first k g xs) k' =
     (if k' = k then map_option g (map_of xs k) else map_of xs k')"
  by (induction xs) auto

lemma Frame_get_code_cache:
  assumes "Frame_get_code cfg mem st code_addr lasti = (res, st')"
    and "map_of (items (frame_cache st)) k = Some f"
  shows "(map_of (items (frame_cache st')) k = Some f' \<longrightarrow> f' = f)
       \<and> (res = Inr (Ref_cached k) \<longrightarrow>
            map_of (items (frame_cache st')) k = Some f
            \<and> string_table st' = string_table st \<and> mojo st' = mojo st)"
proof (cases "code_at mem code_addr")
  case None
  with assms show ?thesis by (auto simp: Frame_get_code_def)
next
  case (Some code)
  let ?K = "Frame_key cfg code_addr lasti"
  show ?thesis
  proof (cases "LRUCache_lookup (frame_cache st) ?K")
    case hit: (Some a)
    obtain v c' where a: "a = (v, c')" by (cases a)
    from LRUCache_lookup_Some [OF hit [unfolded a]] assms Some hit a
    show ?thesis by (auto simp: Frame_get_code_def)
  next
    case None
    then have miss: "map_of (items (frame_cache st)) ?K = None"
      by (simp add: LRUCache_lookup_None)
    with assms(2) have ne: "?K \<noteq> k" by auto
    obtain r tbl where c: "Frame_of_code cfg mem (string_table st) code lasti = (r, tbl)"
      by (cases "Frame_of_code cfg mem (string_table st) code lasti")
    show ?thesis
    proof (cases r)
      case (Inl e)
      with assms Some None c ne show ?thesis
        by (cases e) (auto simp: Frame_get_code_def)
    next
      case (Inr nf)
      with assms Some None c ne show ?thesis
        by (auto simp: Frame_get_code_def announce_and_store_def LRUCache_store_def
            dest: map_of_take_same)
    qed
  qed
qed

lemma set_is_entry_frame:
  "map_of (items (frame_cache (set_is_entry st K e))) k =
     (if k = K then map_option (\<lambda>f. f\<lparr>is_entry := e\<rparr>) (map_of (items (frame_cache st)) K)
      else map_of (items (frame_cache st)) k)"
  by (simp add: set_is_entry_def map_of_update_first)

lemma set_is_entry_other:
  "string_table (set_is_entry st K e) = string_table st"
  "mojo (set_is_entry st K e) = mojo st"
  by (simp_all add: set_is_entry_def)

lemma Frame_read_frame_cases:
  assumes "Frame_read_frame cfg mem st frame_addr = (res, st')"
  obtains
    (thrown) e where "res = Inl e" "st' = st"
  | (got) code_addr lasti r st1 where
      "Frame_get_code cfg mem st code_addr lasti = (r, st1)"
      "(\<exists>x. r = Inl x \<and> res = Inl x \<and> st' = st1)
       \<or> (\<exists>K p e. r = Inr (Ref_cached K) \<and> res = Inr (Ref_cached K, p)
             \<and> (st' = set_is_entry st1 K e \<or> st' = st1))
       \<or> (\<exists>q. r = Inr q \<and> (\<forall>K. q \<noteq> Ref_cached K) \<and> res = Inr (q, 0) \<and> st' = st1)"
proof (cases "PY_VERSION_HEX cfg \<ge> 0x030b0000")
  case False
  show ?thesis
  proof (cases "pyframe_at mem frame_addr")
    case None
    with assms False show ?thesis
      by (intro thrown [of Frame_Error]) (simp_all add: Frame_read_frame_def)
  next
    case (Some py_frame)
    obtain r st1 where
      g: "Frame_get_code cfg mem st (py_f_code py_frame) (f_lasti py_frame) = (r, st1)"
      by (cases "Frame_get_code cfg mem st (py_f_code py_frame) (f_lasti py_frame)")
    show ?thesis
    proof (rule got [OF g])
      from assms False Some g
      show "(\<exists>x. r = Inl x \<and> res = Inl x \<and> st' = st1)
       \<or> (\<exists>K p e. r = Inr (Ref_cached K) \<and> res = Inr (Ref_cached K, p)
             \<and> (st' = set_is_entry st1 K e \<or> st' = st1))
       \<or> (\<exists>q. r = Inr q \<and> (\<forall>K. q \<noteq> Ref_cached K) \<and> res = Inr (q, 0) \<and> st' = st1)"
        by (cases r; cases "projr r")
           (auto simp: Frame_read_frame_def)
    qed
  qed
next
  case True
  show ?thesis
  proof (cases "iframe_at mem frame_addr")
    case None
    with assms True show ?thesis
      by (intro thrown [of Frame_Error]) (simp_all add: Frame_read_frame_def)
  next
    case (Some iframe)
    define lasti where "lasti =
      (if PY_VERSION_HEX cfg \<ge> 0x030d0000 then
         ucast (signed_drop_bit 1 (prev_instr iframe - 2 - f_code iframe))
         - co_code_adaptive_index cfg
       else
         ucast (signed_drop_bit 1 (prev_instr iframe - f_code iframe))
         - co_code_adaptive_index cfg)"
    obtain r st1 where g: "Frame_get_code cfg mem st (f_code iframe) lasti = (r, st1)"
      by (cases "Frame_get_code cfg mem st (f_code iframe) lasti")
    show ?thesis
    proof (rule got [OF g])
      from assms True Some g
      show "(\<exists>x. r = Inl x \<and> res = Inl x \<and> st' = st1)
       \<or> (\<exists>K p e. r = Inr (Ref_cached K) \<and> res = Inr (Ref_cached K, p)
             \<and> (st' = set_is_entry st1 K e \<or> st' = st1))
       \<or> (\<exists>q. r = Inr q \<and> (\<forall>K. q \<noteq> Ref_cached K) \<and> res = Inr (q, 0) \<and> st' = st1)"
        by (cases r; cases "projr r")
           (auto simp: Frame_read_frame_def lasti_def [symmetric])
    qed
  qed
qed

lemma Frame_read_frame_cache:
  assumes "Frame_read_frame cfg mem st frame_addr = (res, st')"
    and "map_of (items (frame_cache st)) k = Some f"
  shows "(\<forall>f'. map_of (items (frame_cache st')) k = Some f' \<longrightarrow> (\<exists>e. f' = f\<lparr>is_entry := e\<rparr>))
       \<and> (\<forall>prev. res = Inr (Ref_cached k, prev) \<longrightarrow>
            (\<exists>e. map_of (items (frame_cache st')) k = Some (f\<lparr>is_entry := e\<rparr>))
            \<and> string_table st' = string_table st \<and> mojo st' = mojo st)"
using assms(1)
proof (cases rule: Frame_read_frame_cases)
  case (thrown e)
  with assms(2) show ?thesis by (simp add: is_entry_only)
next
  case (got code_addr lasti r st1)
  have keep: "map_of (items (frame_cache st1)) k = Some f' \<Longrightarrow> f' = f" for f'
    using Frame_get_code_cache [OF got(1) assms(2), of f'] by simp
  have hit: "r = Inr (Ref_cached k) \<Longrightarrow>
      map_of (items (frame_cache st1)) k = Some f
      \<and> string_table st1 = string_table st \<and> mojo st1 = mojo st"
    using Frame_get_code_cache [OF got(1) assms(2), of f] by simp
  from got(2) consider
      (a) x where "r = Inl x" "res = Inl x" "st' = st1"
    | (b) K p e where "r = Inr (Ref_cached K)" "res = Inr (Ref_cached K, p)"
        "st' = set_is_entry st1 K e"
    | (c) K p where "r = Inr (Ref_cached K)" "res = Inr (Ref_cached K, p)" "st' = st1"
    | (d) q where "r = Inr q" "\<forall>K. q \<noteq> Ref_cached K" "res = Inr (q, 0)" "st' = st1"
    by blast
  then show ?thesis
  proof cases
    case a
    then show ?thesis using keep is_entry_only [of f] by auto
  next
    case b
    have p1: "\<exists>e. f' = f\<lparr>is_entry := e\<rparr>"
      if f': "map_of (items (frame_cache st')) k = Some f'" for f'
    proof (cases "k = K")
      case True
      with f' b(3) obtain g where "map_of (items (frame_cache st1)) k = Some g"
        and "f' = g\<lparr>is_entry := e\<rparr>"
        by (auto simp: set_is_entry_frame)
      with keep [of g] show ?thesis by auto
    next
      case False
      with f' b(3) have "map_of (items (frame_cache st1)) k = Some f'"
        by (simp add: set_is_entry_frame)
      with keep [of f'] show ?thesis using is_entry_only [of f] by simp
    qed
    have p2: "(\<exists>e. map_of (items (frame_cache st')) k = Some (f\<lparr>is_entry := e\<rparr>))
            \<and> string_table st' = string_table st \<and> mojo st' = mojo st"
      if "res = Inr (Ref_cached k, prev)" for prev
    proof -
      from that b have K: "K = k" by simp
      with hit b(1) have h: "map_of (items (frame_cache st1)) k = Some f"
        and "string_table st1 = string_table st" and "mojo st1 = mojo st" by simp_all
      then show ?thesis
        using b(3) K by (auto simp: set_is_entry_frame set_is_entry_other)
    qed
    from p1 p2 show ?thesis by blast
  next
    case c
    have p1: "\<exists>e. f' = f\<lparr>is_entry := e\<rparr>"
      if "map_of (items (frame_cache st')) k = Some f'" for f'
      using that c(3) keep [of f'] is_entry_only [of f] by simp
    have p2: "(\<exists>e. map_of (items (frame_cache st')) k = Some (f\<lparr>is_entry := e\<rparr>))
            \<and> string_table st' = string_table st \<and> mojo st' = mojo st"
      if "res = Inr (Ref_cached k, prev)" for prev
    proof -
      from that c have "K = k" by simp
      with hit c(1) c(3) show ?thesis
        using is_entry_only [of f] by simp
    qed
    from p1 p2 show ?thesis by blast
  next
    case d
    then show ?thesis using keep is_entry_only [of f] by auto
  qed
qed

text \<open>Before Python 3.13 \<^verbatim>\<open>Frame::read\<close> always returns or throws.\<close>

lemma Frame_read_returns:
  "PY_VERSION_HEX cfg < 0x030d0000 \<Longrightarrow> \<exists>r. Frame_read cfg mem st frame_addr = Some r"
  by (simp add: Frame_read_def)

text \<open>
  Claim C10. Let the cache hold the frame \<open>f\<close> under the key \<open>k\<close>, and let a call of
  \<^verbatim>\<open>Frame::read\<close> end, by returning or by throwing. Then a frame the cache holds under \<open>k\<close>
  afterwards is \<open>f\<close> with at most \<^verbatim>\<open>is_entry\<close> changed; and when the call resolved to the
  cached frame of \<open>k\<close> (a repeat lookup of that identity), the cache still holds under \<open>k\<close>
  the frame \<open>f\<close> with at most \<^verbatim>\<open>is_entry\<close> changed, and neither the string table nor the
  trace has changed.
\<close>

theorem cached_frame_keeps_identity:
  assumes "Frame_read cfg mem st frame_addr = Some (res, st')"
    and "map_of (items (frame_cache st)) k = Some f"
  shows "(\<forall>f'. map_of (items (frame_cache st')) k = Some f' \<longrightarrow> (\<exists>e. f' = f\<lparr>is_entry := e\<rparr>))
       \<and> (\<forall>prev. res = Inr (Ref_cached k, prev) \<longrightarrow>
            (\<exists>e. map_of (items (frame_cache st')) k = Some (f\<lparr>is_entry := e\<rparr>))
            \<and> string_table st' = string_table st \<and> mojo st' = mojo st)"
proof -
  note same = is_entry_only [of f]
  from assms(1) consider
      (frame) a where "Frame_read_frame cfg mem st a = (res, st')"
    | (thrown) e where "res = Inl e" "st' = st"
    by (auto simp: Frame_read_def split: if_splits option.splits sum.splits)
  then show ?thesis
  proof cases
    case frame
    from Frame_read_frame_cache [OF frame assms(2)] show ?thesis .
  next
    case thrown
    with assms(2) same show ?thesis by auto
  qed
qed

lemma example_repeat_read:
  "Frame_read example_build example_memory example_cached_state 0x6000 =
     Some (Inr (Ref_cached 0x100000, 0),
           example_cached_state\<lparr>frame_cache :=
             \<lparr>capacity = 8, items = [(0x100000, example_frame\<lparr>is_entry := True\<rparr>)]\<rparr>\<rparr>)"
  by (simp add: Frame_read_def Frame_read_frame_def Frame_get_code_def Frame_key_def
      LRUCache_lookup_def set_is_entry_def example_build_def example_memory_def
      example_cached_state_def)

theorem cached_frame_keeps_identity_witness:
  "Frame_read example_build example_memory example_cached_state 0x6000 =
     Some (Inr (Ref_cached 0x100000, 0),
           example_cached_state\<lparr>frame_cache :=
             \<lparr>capacity = 8, items = [(0x100000, example_frame\<lparr>is_entry := True\<rparr>)]\<rparr>\<rparr>)
   \<and> map_of (items (frame_cache example_cached_state)) 0x100000 = Some example_frame
   \<and> (\<exists>e. map_of [(0x100000 :: addr, example_frame\<lparr>is_entry := True\<rparr>)] 0x100000 =
          Some (example_frame\<lparr>is_entry := e\<rparr>))"
proof -
  have c: "map_of (items (frame_cache example_cached_state)) 0x100000 = Some example_frame"
    by (simp add: example_cached_state_def)
  from cached_frame_keeps_identity [OF example_repeat_read c] example_repeat_read c
  show ?thesis by simp
qed

end
